theory Spec2Isabelle
  imports Main
begin

section \<open>The SMTP provider of notifiers (notifiers/providers/email.py)\<close>

subsection \<open>Python values and request dictionaries\<close>

text \<open>
  The values a request dictionary holds are the ones the provider's schema declares:
  strings, integers, booleans and lists of strings (\<open>to\<close> and \<open>attachments\<close> are
  "one or more" strings). \<open>data.get(k)\<close> is the map lookup, with \<open>None\<close> for Python's
  \<open>None\<close>.
\<close>

datatype pyval = VStr string | VInt int | VBool bool | VList "string list"

type_synonym pydict = "string \<rightharpoonup> pyval"

text \<open>Python truthiness, as used by \<open>if data.get("from_")\<close>, \<open>if data["ssl"]\<close>, ...\<close>

fun truthy :: "pyval \<Rightarrow> bool" where
  "truthy (VStr s) = (s \<noteq> [])"
| "truthy (VInt i) = (i \<noteq> 0)"
| "truthy (VBool b) = b"
| "truthy (VList xs) = (xs \<noteq> [])"

fun truthy_opt :: "pyval option \<Rightarrow> bool" where
  "truthy_opt None = False"
| "truthy_opt (Some v) = truthy v"

text \<open>Python's \<open>==\<close> on these values: a bool compares equal to the integer 0 or 1.\<close>

fun py_eq :: "pyval \<Rightarrow> pyval \<Rightarrow> bool" where
  "py_eq (VInt i) (VBool b) = (i = (if b then 1 else 0))"
| "py_eq (VBool b) (VInt i) = (i = (if b then 1 else 0))"
| "py_eq a b = (a = b)"

fun py_eq_opt :: "pyval option \<Rightarrow> pyval option \<Rightarrow> bool" where
  "py_eq_opt None None = True"
| "py_eq_opt (Some a) (Some b) = py_eq a b"
| "py_eq_opt _ _ = False"

subsection \<open>Exceptions\<close>

text \<open>
  The exception classes that can occur, each instance carrying the text \<open>str(e)\<close>.
  In Python 3 \<open>socket.error\<close> and \<open>IOError\<close> are aliases of \<open>OSError\<close>, and every
  exception of smtplib derives from \<open>SMTPException\<close>, itself a subclass of \<open>OSError\<close>.
\<close>

datatype exc_class =
    SMTPServerDisconnected | SMTPSenderRefused | SMTPAuthenticationError
  | SMTPRecipientsRefused | SMTPDataError
  | OSError | KeyError | IndexError | TypeError | AttributeError | ValueError | RuntimeError

datatype exn = Exn exc_class string

fun exc_class_of :: "exn \<Rightarrow> exc_class" where
  "exc_class_of (Exn c m) = c"

fun str :: "exn \<Rightarrow> string" where
  "str (Exn c m) = m"

fun is_OSError :: "exc_class \<Rightarrow> bool" where
  "is_OSError KeyError = False"
| "is_OSError IndexError = False"
| "is_OSError TypeError = False"
| "is_OSError AttributeError = False"
| "is_OSError ValueError = False"
| "is_OSError RuntimeError = False"
| "is_OSError _ = True"

text \<open>
  The \<open>except (SMTPServerDisconnected, SMTPSenderRefused, socket.error, OSError, IOError,
  SMTPAuthenticationError)\<close> clause of \<open>_send_notification\<close>: an instance check against
  each listed class.
\<close>

definition caught :: "exn \<Rightarrow> bool" where
  "caught e =
     (exc_class_of e = SMTPServerDisconnected \<or> exc_class_of e = SMTPSenderRefused
      \<or> is_OSError (exc_class_of e) \<or> is_OSError (exc_class_of e)
      \<or> is_OSError (exc_class_of e) \<or> exc_class_of e = SMTPAuthenticationError)"

subsection \<open>The message, the transport calls and the provider's state\<close>

record email =
  hdr_to :: pyval
  hdr_from :: pyval
  hdr_subject :: pyval
  hdr_date :: string
  subtype :: string
  body :: pyval
  parts :: "(string \<times> string) list"

text \<open>
  The calls the provider makes to its collaborators: creating a client
  (\<open>smtplib.SMTP()\<close>, or \<open>smtplib.SMTP_SSL()\<close> when the flag is set), the methods of a
  client (identified by a number), and reading an attachment.
\<close>

datatype smtp_op =
    Connect pyval pyval | Ehlo | StartTLS | Login pyval pyval | SendMessage email

datatype call = NewClient nat bool | Method nat smtp_op | ReadBytes string

text \<open>\<open>self.smtp_server\<close> holds \<open>None\<close>, a client class, or a client instance.\<close>

datatype server = ServerClass bool | ServerInstance nat bool

type_synonym config = "pyval \<times> pyval \<times> pyval option"

record state =
  smtp_server :: "server option"
  configuration :: "config option"
  trace :: "call list"

text \<open>
  The exceptions of the \<open>email\<close> package when it is given a value to store under a
  header: none of them is an \<open>OSError\<close>.
\<close>

datatype email_exc = EmailValueError | EmailTypeError | EmailIndexError | EmailAttributeError

fun email_exn :: "email_exc \<times> string \<Rightarrow> exn" where
  "email_exn (EmailValueError, m) = Exn ValueError m"
| "email_exn (EmailTypeError, m) = Exn TypeError m"
| "email_exn (EmailIndexError, m) = Exn IndexError m"
| "email_exn (EmailAttributeError, m) = Exn AttributeError m"

text \<open>
  The collaborators: whether a call succeeds or raises may depend on every call made
  before it; the bytes of a file and the formatted local date are given. The header
  parsers of the \<open>email\<close> package accept a value stored under a header name or
  reject it with one of their exceptions.
\<close>

record env =
  outcome :: "call list \<Rightarrow> call \<Rightarrow> exn option"
  file_bytes :: "string \<Rightarrow> string"
  formatdate :: string
  header_parser :: "string \<Rightarrow> pyval \<Rightarrow> (email_exc \<times> string) option"

text \<open>\<open>__init__\<close>\<close>

definition init :: state where
  "init = \<lparr>smtp_server = None, configuration = None, trace = []\<rparr>"

subsection \<open>Computations that change the state and may raise\<close>

type_synonym 'a m = "state \<Rightarrow> (exn + 'a) \<times> state"

definition return :: "'a \<Rightarrow> 'a m" where
  "return x = (\<lambda>s. (Inr x, s))"

definition raise :: "exn \<Rightarrow> 'a m" where
  "raise e = (\<lambda>s. (Inl e, s))"

text \<open>A function that only returns or raises, run inside such a computation.\<close>

definition lift :: "exn + 'a \<Rightarrow> 'a m" where
  "lift r = (\<lambda>s. (r, s))"

definition bind :: "'a m \<Rightarrow> ('a \<Rightarrow> 'b m) \<Rightarrow> 'b m" where
  "bind f g = (\<lambda>s. case f s of (Inl e, s') \<Rightarrow> (Inl e, s') | (Inr x, s') \<Rightarrow> g x s')"

text \<open>
  \<open>data[k]\<close>: a missing key raises \<open>KeyError\<close>, whose text is the key in quotes.
\<close>

definition key_error :: "string \<Rightarrow> exn" where
  "key_error k = Exn KeyError (CHR 0x27 # k @ [CHR 0x27])"

definition getitem :: "pydict \<Rightarrow> string \<Rightarrow> pyval m" where
  "getitem data k = (case data k of None \<Rightarrow> raise (key_error k) | Some v \<Rightarrow> return v)"

definition set_smtp_server :: "server \<Rightarrow> unit m" where
  "set_smtp_server x = (\<lambda>s. (Inr (), s\<lparr>smtp_server := Some x\<rparr>))"

definition set_configuration :: "config \<Rightarrow> unit m" where
  "set_configuration c = (\<lambda>s. (Inr (), s\<lparr>configuration := Some c\<rparr>))"

text \<open>A call to a collaborator is recorded, then succeeds or raises as the collaborator decides.\<close>

definition perform :: "env \<Rightarrow> call \<Rightarrow> unit m" where
  "perform E c = (\<lambda>s.
     (case outcome E (trace s) c of None \<Rightarrow> Inr () | Some e \<Rightarrow> Inl e,
      s\<lparr>trace := trace s @ [c]\<rparr>))"

text \<open>
  \<open>self.smtp_server = self.smtp_server()\<close>: the new client gets a number not used before.
\<close>

definition new_client :: "env \<Rightarrow> bool \<Rightarrow> unit m" where
  "new_client E ssl = (\<lambda>s.
     bind (perform E (NewClient (length (trace s)) ssl))
          (\<lambda>_. set_smtp_server (ServerInstance (length (trace s)) ssl)) s)"

text \<open>
  \<open>self.smtp_server.f(...)\<close>: on a client instance the method is called; \<open>None\<close> has no
  such attribute, and a method looked up on the class is called without its \<open>self\<close>.
\<close>

definition server_call :: "env \<Rightarrow> smtp_op \<Rightarrow> unit m" where
  "server_call E f = (\<lambda>s.
     case smtp_server s of
       None \<Rightarrow> raise (Exn AttributeError ''NoneType object has no attribute'') s
     | Some (ServerClass ssl) \<Rightarrow> raise (Exn TypeError ''missing required argument'') s
     | Some (ServerInstance h ssl) \<Rightarrow> perform E (Method h f) s)"

subsection \<open>The provider\<close>

text \<open>
  Modelled from the spec: \<open>list_to_commas\<close> of \<open>notifiers.utils.schema.helpers\<close> is not
  part of the sources at hand; the specification has a sequence "joined into the
  transport's expected scalar representation (e.g., comma-joined address list) with no
  reordering", \<open>["a@x.com","b@x.com"]\<close> giving \<open>"a@x.com,b@x.com"\<close>.
\<close>

fun list_to_commas :: "string list \<Rightarrow> string" where
  "list_to_commas [] = []"
| "list_to_commas [x] = x"
| "list_to_commas (x # y # ys) = x @ '','' @ list_to_commas (y # ys)"

text \<open>
  \<open>_prepare_data\<close>. \<open>data["to"]\<close> raises \<open>KeyError\<close> when the key is missing;
  \<open>data.pop("from_")\<close> removes the key and yields its value.
\<close>

definition prepare_data :: "pydict \<Rightarrow> exn + pydict" where
  "prepare_data data =
     (case data ''to'' of
        None \<Rightarrow> Inl (key_error ''to'')
      | Some t \<Rightarrow>
          let data1 = (case t of VList xs \<Rightarrow> data(''to'' \<mapsto> VStr (list_to_commas xs))
                               | _ \<Rightarrow> data)
          in if truthy_opt (data1 ''from_'')
             then (case data1 ''from_'' of
                     None \<Rightarrow> Inr data1
                   | Some v \<Rightarrow> Inr ((data1(''from_'' := None))(''from'' \<mapsto> v)))
             else Inr data1)"

text \<open>
  Modelled from the spec: the checker of the format \<open>email\<close>, which the schema declares
  for \<open>from_\<close> (a string of format \<open>email\<close>), is not part of the sources at hand; the
  specification speaks of a "format constraint (e.g., email address ...)". Of an email
  address only this is used: it contains the sign @.
\<close>

definition format_email :: "string \<Rightarrow> bool" where
  "format_email a = (CHR ''@'' \<in> set a)"

text \<open>A value that the schema admits for the field \<open>from_\<close>.\<close>

fun valid_alias :: "pyval \<Rightarrow> bool" where
  "valid_alias (VStr a) = format_email a"
| "valid_alias _ = False"

text \<open>
  Assigning a header of an \<open>EmailMessage\<close>. The policy first refuses a string that
  \<open>splitlines()\<close> cuts into more than one line, with a \<open>ValueError\<close>: a line break
  (line feed, vertical tab, form feed, carriage return, file, group or record
  separator, next line) that is followed by more text, a carriage return directly
  before a final line feed not counting. A character of a string is a code point
  below 256 here. Any other value goes to the parser of the header.
\<close>

definition is_linebreak :: "char \<Rightarrow> bool" where
  "is_linebreak c =
     (c \<in> set [CHR 0x0A, CHR 0x0B, CHR 0x0C, CHR 0x0D, CHR 0x1C, CHR 0x1D, CHR 0x1E, CHR 0x85])"

fun multi_line :: "string \<Rightarrow> bool" where
  "multi_line [] = False"
| "multi_line (c # cs) =
     (if is_linebreak c then cs \<noteq> [] \<and> \<not> (c = CHR 0x0D \<and> cs = [CHR 0x0A])
      else multi_line cs)"

definition header_error :: "env \<Rightarrow> string \<Rightarrow> pyval \<Rightarrow> exn option" where
  "header_error E name v =
     (case v of
        VStr s \<Rightarrow>
          if multi_line s
          then Some (Exn ValueError
                 ''Header values may not contain linefeed or carriage return characters'')
          else map_option email_exn (header_parser E name v)
      | _ \<Rightarrow> map_option email_exn (header_parser E name v))"

definition set_header :: "env \<Rightarrow> string \<Rightarrow> pyval \<Rightarrow> unit m" where
  "set_header E name v = (case header_error E name v of None \<Rightarrow> return () | Some e \<Rightarrow> raise e)"

text \<open>
  \<open>add_alternative\<close> takes a string as the body; for a value of another type the content
  manager has no handler and raises \<open>KeyError\<close> with the name of the type.
\<close>

fun body_error :: "pyval \<Rightarrow> exn option" where
  "body_error (VStr s) = None"
| "body_error (VInt i) = Some (key_error ''builtins.int'')"
| "body_error (VBool b) = Some (key_error ''builtins.bool'')"
| "body_error (VList xs) = Some (key_error ''builtins.list'')"

definition add_alternative :: "pyval \<Rightarrow> unit m" where
  "add_alternative v = (case body_error v of None \<Rightarrow> return () | Some e \<Rightarrow> raise e)"

text \<open>
  \<open>_build_email\<close>, statement by statement: each field is read when its statement is
  reached. The \<open>Date\<close> header gets the text that \<open>formatdate\<close> produced.
\<close>

definition build_email :: "env \<Rightarrow> pydict \<Rightarrow> email m" where
  "build_email E data =
     bind (getitem data ''to'') (\<lambda>t.
     bind (set_header E ''To'' t) (\<lambda>_.
     bind (getitem data ''from'') (\<lambda>f.
     bind (set_header E ''From'' f) (\<lambda>_.
     bind (getitem data ''subject'') (\<lambda>sub.
     bind (set_header E ''Subject'' sub) (\<lambda>_.
     bind (getitem data ''html'') (\<lambda>html.
     bind (getitem data ''message'') (\<lambda>msg.
     bind (add_alternative msg) (\<lambda>_.
     return \<lparr>hdr_to = t, hdr_from = f, hdr_subject = sub, hdr_date = formatdate E,
             subtype = (if truthy html then ''html'' else ''plain''),
             body = msg, parts = []\<rparr>)))))))))"

text \<open>
  \<open>_add_attachments\<close>: the loop over \<open>data["attachments"]\<close>. Iterating a list yields its
  elements, iterating a string yields its characters, and integers and booleans are
  not iterable. Each file is read with a call to the file system; wrapping the bytes
  and attaching the part are taken to succeed.
\<close>

fun attach_all :: "env \<Rightarrow> string list \<Rightarrow> email \<Rightarrow> email m" where
  "attach_all E [] email = return email"
| "attach_all E (attachment # rest) email =
     bind (perform E (ReadBytes attachment)) (\<lambda>_.
     attach_all E rest (email\<lparr>parts := parts email @ [(attachment, file_bytes E attachment)]\<rparr>))"

definition add_attachments :: "env \<Rightarrow> pydict \<Rightarrow> email \<Rightarrow> email m" where
  "add_attachments E data email =
     bind (getitem data ''attachments'') (\<lambda>a.
       case a of
         VList xs \<Rightarrow> attach_all E xs email
       | VStr s \<Rightarrow> attach_all E (map (\<lambda>c. [c]) s) email
       | _ \<Rightarrow> raise (Exn TypeError ''object is not iterable''))"

text \<open>\<open>_get_configuration\<close>\<close>

definition get_configuration :: "pydict \<Rightarrow> exn + config" where
  "get_configuration data =
     (case data ''host'' of
        None \<Rightarrow> Inl (key_error ''host'')
      | Some host \<Rightarrow>
          (case data ''port'' of
             None \<Rightarrow> Inl (key_error ''port'')
           | Some port \<Rightarrow> Inr (host, port, data ''username'')))"

text \<open>
  \<open>_connect_to_server\<close>. \<open>set_debuglevel\<close> only stores a flag in the client and the
  \<open>log.debug\<close> lines write to the log; neither is a transport call.
\<close>

definition connect_to_server :: "env \<Rightarrow> pydict \<Rightarrow> unit m" where
  "connect_to_server E data =
     bind (getitem data ''ssl'') (\<lambda>ssl.
     bind (set_smtp_server (ServerClass (truthy ssl))) (\<lambda>_.
     bind (new_client E (truthy ssl)) (\<lambda>_.
     bind (getitem data ''host'') (\<lambda>host.
     bind (getitem data ''port'') (\<lambda>port.
     bind (server_call E (Connect host port)) (\<lambda>_.
     bind (lift (get_configuration data)) (\<lambda>c.
     bind (set_configuration c) (\<lambda>_.
     bind (getitem data ''tls'') (\<lambda>tls.
     bind (if truthy tls
           then bind (getitem data ''ssl'') (\<lambda>ssl'. return (\<not> truthy ssl'))
           else return False) (\<lambda>upgrade.
     bind (if upgrade
           then bind (server_call E Ehlo) (\<lambda>_. server_call E StartTLS)
           else return ()) (\<lambda>_.
     if truthy_opt (data ''username'')
     then bind (getitem data ''username'') (\<lambda>u.
          bind (getitem data ''password'') (\<lambda>p.
          server_call E (Login u p)))
     else return ())))))))))))"

text \<open>
  The test \<open>not self.configuration or not self.smtp_server or self.configuration !=
  configuration\<close>. A stored tuple and a stored class or instance are truthy; tuples are
  compared component by component.
\<close>

fun config_eq :: "config \<Rightarrow> config \<Rightarrow> bool" where
  "config_eq (h, p, u) (h', p', u') = (py_eq h h' \<and> py_eq p p' \<and> py_eq_opt u u')"

definition needs_connect :: "state \<Rightarrow> config \<Rightarrow> bool" where
  "needs_connect s c =
     (case configuration s of
        None \<Rightarrow> True
      | Some c0 \<Rightarrow> (case smtp_server s of None \<Rightarrow> True | Some _ \<Rightarrow> \<not> config_eq c0 c))"

text \<open>The body of the \<open>try\<close> statement of \<open>_send_notification\<close>.\<close>

definition try_body :: "env \<Rightarrow> pydict \<Rightarrow> unit m" where
  "try_body E data =
     bind (lift (get_configuration data)) (\<lambda>c.
     bind (\<lambda>s. if needs_connect s c then connect_to_server E data s else return () s) (\<lambda>_.
     bind (build_email E data) (\<lambda>email.
     bind (if truthy_opt (data ''attachments'')
           then add_attachments E data email
           else return email) (\<lambda>email'.
     server_call E (SendMessage email')))))"

text \<open>
  Modelled from the spec: \<open>Response\<close> and \<open>Provider.create_response\<close> of
  \<open>notifiers.core\<close> are not part of the sources at hand; the specification gives the
  shape \<open>{"data": request, "errors": [string, ...] | null}\<close>.
\<close>

record response =
  resp_data :: pydict
  resp_errors :: "string list option"

definition create_response :: "pydict \<Rightarrow> string list option \<Rightarrow> response" where
  "create_response data errors = \<lparr>resp_data = data, resp_errors = errors\<rparr>"

text \<open>
  \<open>_send_notification\<close>: an exception of a listed class becomes the error list of the
  response, any other exception leaves the function.
\<close>

definition send_notification :: "env \<Rightarrow> pydict \<Rightarrow> response m" where
  "send_notification E data = (\<lambda>s.
     case try_body E data s of
       (Inr _, s') \<Rightarrow> (Inr (create_response data None), s')
     | (Inl e, s') \<Rightarrow>
         if caught e then (Inr (create_response data (Some [str e])), s')
         else (Inl e, s'))"

text \<open>
  The part of the \<open>try\<close> body that follows the reuse-or-connect decision: build the
  message, add the attachments, transmit.
\<close>

definition build_and_send :: "env \<Rightarrow> pydict \<Rightarrow> unit m" where
  "build_and_send E data =
     bind (build_email E data) (\<lambda>email.
     bind (if truthy_opt (data ''attachments'')
           then add_attachments E data email
           else return email) (\<lambda>email'.
     server_call E (SendMessage email')))"

subsection \<open>Observing a run\<close>

text \<open>The calls made between an earlier state and a later one.\<close>

definition new_calls :: "state \<Rightarrow> state \<Rightarrow> call list" where
  "new_calls s s' = drop (length (trace s)) (trace s')"

text \<open>
  The calls of the connect-and-authenticate sequence, the transmit call, and the
  reading of a file.
\<close>

fun is_newclient :: "call \<Rightarrow> bool" where
  "is_newclient (NewClient h ssl) = True"
| "is_newclient _ = False"

fun is_session_call :: "call \<Rightarrow> bool" where
  "is_session_call (NewClient h ssl) = True"
| "is_session_call (Method h (SendMessage em)) = False"
| "is_session_call (Method h f) = True"
| "is_session_call (ReadBytes p) = False"

fun is_connect :: "call \<Rightarrow> bool" where
  "is_connect (Method h (Connect host port)) = True"
| "is_connect _ = False"

fun is_login :: "call \<Rightarrow> bool" where
  "is_login (Method h (Login u p)) = True"
| "is_login _ = False"

fun is_starttls :: "call \<Rightarrow> bool" where
  "is_starttls (Method h StartTLS) = True"
| "is_starttls _ = False"

fun is_send :: "call \<Rightarrow> bool" where
  "is_send (Method h (SendMessage em)) = True"
| "is_send _ = False"

fun is_read :: "call \<Rightarrow> bool" where
  "is_read (ReadBytes p) = True"
| "is_read _ = False"

text \<open>
  The outcome of the last call made: \<open>None\<close> when it succeeded, the exception when it
  raised.
\<close>

definition last_outcome :: "env \<Rightarrow> state \<Rightarrow> exn option" where
  "last_outcome E s = outcome E (butlast (trace s)) (last (trace s))"

text \<open>
  What the defaults (\<open>subject\<close>, \<open>from\<close>, \<open>host\<close>, \<open>port\<close>, \<open>tls\<close>, \<open>ssl\<close>, \<open>html\<close>), the
  required fields (\<open>message\<close>, \<open>to\<close>) and the dependency of \<open>username\<close> on \<open>password\<close>
  guarantee of a merged and validated request, with \<open>attachments\<close> a string or a list
  of strings when supplied.
\<close>

definition wf_request :: "pydict \<Rightarrow> bool" where
  "wf_request data =
     (data ''host'' \<noteq> None \<and> data ''port'' \<noteq> None \<and> data ''ssl'' \<noteq> None
      \<and> data ''tls'' \<noteq> None \<and> data ''to'' \<noteq> None \<and> data ''from'' \<noteq> None
      \<and> data ''subject'' \<noteq> None \<and> data ''html'' \<noteq> None \<and> data ''message'' \<noteq> None
      \<and> (if truthy_opt (data ''username'') then data ''password'' \<noteq> None else True)
      \<and> (case data ''attachments'' of
            Some (VInt i) \<Rightarrow> False | Some (VBool b) \<Rightarrow> False | _ \<Rightarrow> True))"

text \<open>
  The \<open>email\<close> package takes the request's \<open>to\<close>, \<open>from\<close> and \<open>subject\<close> as headers and
  its \<open>message\<close> as the body: no header value has lines, the parsers accept them, the
  body is a string.
\<close>

definition message_accepted :: "env \<Rightarrow> pydict \<Rightarrow> bool" where
  "message_accepted E data =
     ((case data ''to'' of None \<Rightarrow> True | Some v \<Rightarrow> header_error E ''To'' v = None)
      \<and> (case data ''from'' of None \<Rightarrow> True | Some v \<Rightarrow> header_error E ''From'' v = None)
      \<and> (case data ''subject'' of None \<Rightarrow> True | Some v \<Rightarrow> header_error E ''Subject'' v = None)
      \<and> (case data ''message'' of None \<Rightarrow> True | Some v \<Rightarrow> body_error v = None))"

text \<open>A collaborator that raises nothing but exceptions of the listed classes.\<close>

definition closed_env :: "env \<Rightarrow> bool" where
  "closed_env E = (\<forall>h c e. outcome E h c = Some e \<longrightarrow> caught e)"

text \<open>The stored client is not a class object left behind by a failed constructor.\<close>

definition no_class_object :: "state \<Rightarrow> bool" where
  "no_class_object s = (case smtp_server s of Some (ServerClass ssl) \<Rightarrow> False | _ \<Rightarrow> True)"

subsection \<open>Concrete requests and collaborators\<close>

text \<open>
  Requests for normalization: an empty alias, and an alias beside a canonical field.
\<close>

definition req_empty_alias :: pydict where
  "req_empty_alias =
     [''to'' \<mapsto> VStr ''a@x.com'', ''from'' \<mapsto> VStr ''d@x.com'', ''from_'' \<mapsto> VStr '''']"

definition req_alias :: pydict where
  "req_alias =
     [''to'' \<mapsto> VList [''a@x.com'', ''b@x.com''], ''from'' \<mapsto> VStr ''d@x.com'',
      ''from_'' \<mapsto> VStr ''me@x.com'']"

text \<open>
  A complete request with credentials; the same with another password, with a server
  that wants the upgrade to TLS, and with an attachment.
\<close>

definition req0 :: pydict where
  "req0 = [''message'' \<mapsto> VStr ''hi'', ''to'' \<mapsto> VStr ''a@x.com'',
           ''username'' \<mapsto> VStr ''u'', ''password'' \<mapsto> VStr ''p'',
           ''subject'' \<mapsto> VStr ''hello'', ''from'' \<mapsto> VStr ''me@localhost'',
           ''host'' \<mapsto> VStr ''localhost'', ''port'' \<mapsto> VInt 25,
           ''tls'' \<mapsto> VBool False, ''ssl'' \<mapsto> VBool False, ''html'' \<mapsto> VBool False]"

definition req_other_password :: pydict where
  "req_other_password = req0(''password'' \<mapsto> VStr ''q'')"

definition req_tls :: pydict where
  "req_tls = [''message'' \<mapsto> VStr ''hi'', ''to'' \<mapsto> VStr ''a@x.com'',
           ''username'' \<mapsto> VStr ''u'', ''password'' \<mapsto> VStr ''p'',
           ''subject'' \<mapsto> VStr ''hello'', ''from'' \<mapsto> VStr ''me@localhost'',
           ''host'' \<mapsto> VStr ''mail.x.com'', ''port'' \<mapsto> VInt 587,
           ''tls'' \<mapsto> VBool True, ''ssl'' \<mapsto> VBool False, ''html'' \<mapsto> VBool False]"

definition req_attach :: pydict where
  "req_attach = req0(''attachments'' \<mapsto> VList [''/tmp/missing.txt''])"

text \<open>A request whose subject has a line feed in it, as the schema allows.\<close>

definition req_newline :: pydict where
  "req_newline = req0(''subject'' \<mapsto> VStr [CHR ''a'', CHR 0x0A, CHR ''b''])"

text \<open>
  Collaborators whose answer depends on the call alone, with header parsers that accept
  every value: all calls succeed; the login is
  rejected; the sender is refused at transmit; the transmit raises an exception of
  no listed class; no file can be read.
\<close>

definition env_of :: "(call \<Rightarrow> exn option) \<Rightarrow> env" where
  "env_of f =
     \<lparr>outcome = (\<lambda>h. f), file_bytes = (\<lambda>p. []),
      formatdate = ''Wed, 04 Nov 2026 12:00:00 +0000'',
      header_parser = (\<lambda>name v. None)\<rparr>"

fun all_ok :: "call \<Rightarrow> exn option" where
  "all_ok c = None"

fun login_rejected :: "call \<Rightarrow> exn option" where
  "login_rejected (Method h (Login u p)) =
     Some (Exn SMTPAuthenticationError ''535 authentication failed'')"
| "login_rejected _ = None"

fun sender_refused :: "call \<Rightarrow> exn option" where
  "sender_refused (Method h (SendMessage em)) =
     Some (Exn SMTPSenderRefused ''553 sender address rejected'')"
| "sender_refused _ = None"

fun send_value_error :: "call \<Rightarrow> exn option" where
  "send_value_error (Method h (SendMessage em)) =
     Some (Exn ValueError ''message has more than one Resent- header block'')"
| "send_value_error _ = None"

fun file_missing :: "call \<Rightarrow> exn option" where
  "file_missing (ReadBytes p) = Some (Exn OSError ''[Errno 2] No such file or directory'')"
| "file_missing _ = None"

text \<open>
  Two more collaborators: the constructor of the client raises; the server refuses the
  upgrade to TLS.
\<close>

fun constructor_fails :: "call \<Rightarrow> exn option" where
  "constructor_fails (NewClient h ssl) = Some (Exn OSError ''[Errno 24] Too many open files'')"
| "constructor_fails _ = None"

fun starttls_fails :: "call \<Rightarrow> exn option" where
  "starttls_fails (Method h StartTLS) = Some (Exn OSError ''[SSL] handshake failure'')"
| "starttls_fails _ = None"

text \<open>
  The message built from these requests, and the states the provider is in after such
  dispatches: after sending \<open>req0\<close> once and twice, after then sending \<open>req_tls\<close>,
  after a rejected login, and after an attachment could not be read.
\<close>

definition email0 :: email where
  "email0 = \<lparr>hdr_to = VStr ''a@x.com'', hdr_from = VStr ''me@localhost'',
              hdr_subject = VStr ''hello'', hdr_date = ''Wed, 04 Nov 2026 12:00:00 +0000'',
              subtype = ''plain'', body = VStr ''hi'', parts = []\<rparr>"

definition st_sent :: state where
  "st_sent = \<lparr>smtp_server = Some (ServerInstance 0 False),
       configuration = Some (VStr ''localhost'', VInt 25, Some (VStr ''u'')),
       trace = [NewClient 0 False, Method 0 (Connect (VStr ''localhost'') (VInt 25)),
                Method 0 (Login (VStr ''u'') (VStr ''p'')), Method 0 (SendMessage email0)]\<rparr>"

definition st_sent2 :: state where
  "st_sent2 = st_sent\<lparr>trace := trace st_sent @ [Method 0 (SendMessage email0)]\<rparr>"


definition st_auth_failed :: state where
  "st_auth_failed = \<lparr>smtp_server = Some (ServerInstance 0 False),
       configuration = Some (VStr ''localhost'', VInt 25, Some (VStr ''u'')),
       trace = [NewClient 0 False, Method 0 (Connect (VStr ''localhost'') (VInt 25)),
                Method 0 (Login (VStr ''u'') (VStr ''p''))]\<rparr>"

definition st_missing :: state where
  "st_missing = \<lparr>smtp_server = Some (ServerInstance 0 False),
       configuration = Some (VStr ''localhost'', VInt 25, Some (VStr ''u'')),
       trace = [NewClient 0 False, Method 0 (Connect (VStr ''localhost'') (VInt 25)),
                Method 0 (Login (VStr ''u'') (VStr ''p'')), ReadBytes ''/tmp/missing.txt'']\<rparr>"

text \<open>
  The provider after it sent \<open>req0\<close> and then failed to create a client for another
  identity, and a fresh provider after a refused upgrade.
\<close>

definition st_class_object :: state where
  "st_class_object = st_sent\<lparr>smtp_server := Some (ServerClass False),
                             trace := trace st_sent @ [NewClient 4 False]\<rparr>"

definition st_starttls_failed :: state where
  "st_starttls_failed = \<lparr>smtp_server = Some (ServerInstance 0 False),
       configuration = Some (VStr ''mail.x.com'', VInt 587, Some (VStr ''u'')),
       trace = [NewClient 0 False, Method 0 (Connect (VStr ''mail.x.com'') (VInt 587)),
                Method 0 Ehlo, Method 0 StartTLS]\<rparr>"

section \<open>Properties\<close>

subsection \<open>Normalization\<close>

lemma prepare_data_returns:
  "data ''to'' = Some t \<Longrightarrow> \<exists>d'. prepare_data data = Inr d'"
  by (auto simp: prepare_data_def Let_def split: pyval.splits option.splits)

lemma prepare_data_raises:
  "data ''to'' = None \<Longrightarrow> prepare_data data = Inl (key_error ''to'')"
  by (simp add: prepare_data_def)

lemma valid_alias_truthy: "valid_alias v \<Longrightarrow> truthy v"
  by (cases v) (auto simp: format_email_def)

lemma prepare_data_alias_truthy:
  assumes "data ''to'' = Some t" and "data ''from_'' = Some v" and "truthy v"
  shows "\<exists>d'. prepare_data data = Inr d' \<and> d' ''from'' = Some v \<and> d' ''from_'' = None \<and>
              (\<forall>k. k \<noteq> ''from'' \<and> k \<noteq> ''from_'' \<and> k \<noteq> ''to'' \<longrightarrow> d' k = data k)"
  using assms by (auto simp: prepare_data_def Let_def split: pyval.splits)

text \<open>
  C6: for every request with a \<open>to\<close> field in which the alias field \<open>from_\<close> is present
  with a value the schema admits (a string of format \<open>email\<close>, hence not empty),
  \<open>_prepare_data\<close> returns a request whose \<open>from\<close> is the supplied \<open>from_\<close> value,
  whatever \<open>from\<close> was before, that has no \<open>from_\<close> key, and that agrees with the given
  request on every field other than \<open>to\<close>, \<open>from\<close> and \<open>from_\<close>. The guard of the source
  is the truthiness of \<open>data.get("from_")\<close>, which holds for every such value.
\<close>

theorem prepare_data_alias:
  assumes "data ''to'' = Some t" and "data ''from_'' = Some v" and "valid_alias v"
  shows "\<exists>d'. prepare_data data = Inr d' \<and> d' ''from'' = Some v \<and> d' ''from_'' = None \<and>
              (\<forall>k. k \<noteq> ''from'' \<and> k \<noteq> ''from_'' \<and> k \<noteq> ''to'' \<longrightarrow> d' k = data k)"
  using assms(1,2) valid_alias_truthy [OF assms(3)] by (rule prepare_data_alias_truthy)

theorem prepare_data_alias_witness:
  "req_alias ''to'' = Some (VList [''a@x.com'', ''b@x.com'']) \<and>
   req_alias ''from_'' = Some (VStr ''me@x.com'') \<and> valid_alias (VStr ''me@x.com'') \<and>
   req_alias ''from'' = Some (VStr ''d@x.com'') \<and>
   (\<exists>d'. prepare_data req_alias = Inr d' \<and> d' ''from'' = Some (VStr ''me@x.com'')
         \<and> d' ''from_'' = None)"
  using prepare_data_alias [of req_alias "VList [''a@x.com'', ''b@x.com'']" "VStr ''me@x.com''"]
  by (auto simp: req_alias_def format_email_def)

text \<open>
  C7: normalization is idempotent. Applying \<open>_prepare_data\<close> to its own result gives
  that result again; when it raises (no \<open>to\<close> field) there is no result to apply it to.
\<close>

theorem prepare_data_idempotent:
  "(case prepare_data x of Inl e \<Rightarrow> Inl e | Inr y \<Rightarrow> prepare_data y) = prepare_data x"
  by (auto simp: prepare_data_def Let_def split: pyval.splits option.splits sum.splits)

subsection \<open>The attachment loop and the message\<close>

lemma not_caught_internal [simp]:
  "\<not> caught (key_error k)" "\<not> caught (Exn KeyError m)" "\<not> caught (Exn TypeError m)"
  "\<not> caught (Exn AttributeError m)" "\<not> caught (Exn ValueError m)" "\<not> caught (email_exn x)"
  by (simp_all add: caught_def key_error_def) (cases x rule: email_exn.cases; simp)

lemma new_calls_append [simp]: "trace s' = trace s @ evs \<Longrightarrow> new_calls s s' = evs"
  by (simp add: new_calls_def)

lemma attach_all_frame:
  "attach_all E ps em s = (r, s') \<Longrightarrow>
     smtp_server s' = smtp_server s \<and> configuration s' = configuration s \<and>
     (\<exists>evs. trace s' = trace s @ evs \<and> (\<forall>c\<in>set evs. is_read c))"
proof (induction ps arbitrary: em s)
  case Nil
  then show ?case by (simp add: return_def)
next
  case (Cons p ps)
  show ?case
  proof (cases "outcome E (trace s) (ReadBytes p)")
    case None
    let ?s1 = "s\<lparr>trace := trace s @ [ReadBytes p]\<rparr>"
    let ?em1 = "em\<lparr>parts := parts em @ [(p, file_bytes E p)]\<rparr>"
    from Cons.prems None have "attach_all E ps ?em1 ?s1 = (r, s')"
      by (simp add: bind_def perform_def)
    from Cons.IH [OF this] show ?thesis by auto
  next
    case (Some e)
    with Cons.prems show ?thesis by (auto simp: bind_def perform_def)
  qed
qed

lemma attach_all_caught:
  "closed_env E \<Longrightarrow> attach_all E ps em s = (Inl e, s') \<Longrightarrow> caught e"
proof (induction ps arbitrary: em s)
  case Nil
  then show ?case by (simp add: return_def)
next
  case (Cons p ps)
  show ?case
  proof (cases "outcome E (trace s) (ReadBytes p)")
    case None
    with Cons.prems(2) have "attach_all E ps (em\<lparr>parts := parts em @ [(p, file_bytes E p)]\<rparr>)
        (s\<lparr>trace := trace s @ [ReadBytes p]\<rparr>) = (Inl e, s')"
      by (simp add: bind_def perform_def)
    from Cons.IH [OF Cons.prems(1) this] show ?thesis .
  next
    case (Some e')
    with Cons.prems show ?thesis by (auto simp: bind_def perform_def closed_env_def)
  qed
qed

lemma attach_all_missing:
  "p \<in> set ps \<Longrightarrow> \<forall>h. outcome E h (ReadBytes p) \<noteq> None \<Longrightarrow>
   \<exists>e s'. attach_all E ps em s = (Inl e, s')"
proof (induction ps arbitrary: em s)
  case Nil
  then show ?case by simp
next
  case (Cons q ps)
  show ?case
  proof (cases "outcome E (trace s) (ReadBytes q)")
    case None
    have "p \<noteq> q"
    proof
      assume "p = q"
      with Cons.prems(2) None show False by (metis option.distinct(1))
    qed
    with Cons.prems(1) have "p \<in> set ps" by simp
    from Cons.IH [OF this Cons.prems(2)] None show ?thesis
      by (simp add: bind_def perform_def)
  next
    case (Some e')
    then show ?thesis by (simp add: bind_def perform_def)
  qed
qed

lemma attach_all_raises:
  "attach_all E ps em s = (Inl e, s') \<Longrightarrow>
     \<exists>evs. trace s' = trace s @ evs \<and> evs \<noteq> [] \<and> (\<forall>c\<in>set evs. is_read c)"
proof (induction ps arbitrary: em s)
  case Nil
  then show ?case by (simp add: return_def)
next
  case (Cons p ps)
  show ?case
  proof (cases "outcome E (trace s) (ReadBytes p)")
    case None
    with Cons.prems have "attach_all E ps (em\<lparr>parts := parts em @ [(p, file_bytes E p)]\<rparr>)
        (s\<lparr>trace := trace s @ [ReadBytes p]\<rparr>) = (Inl e, s')"
      by (simp add: bind_def perform_def)
    from Cons.IH [OF this] show ?thesis by auto
  next
    case (Some e')
    with Cons.prems show ?thesis by (auto simp: bind_def perform_def)
  qed
qed

lemma add_attachments_frame:
  "add_attachments E data em s = (r, s') \<Longrightarrow>
     smtp_server s' = smtp_server s \<and> configuration s' = configuration s \<and>
     (\<exists>evs. trace s' = trace s @ evs \<and> (\<forall>c\<in>set evs. is_read c))"
  by (auto simp: add_attachments_def bind_def getitem_def raise_def return_def
      split: option.splits pyval.splits dest: attach_all_frame)

subsection \<open>Running a computation step by step\<close>

lemma bind_return: "bind (return x) g s = g x s"
  by (simp add: bind_def return_def)

lemma bind_raise: "bind (raise e) g s = (Inl e, s)"
  by (simp add: bind_def raise_def)

lemma bind_lift: "bind (lift r) g s = (case r of Inl e \<Rightarrow> (Inl e, s) | Inr x \<Rightarrow> g x s)"
  by (simp add: bind_def lift_def split: sum.splits)

lemma bind_assoc: "bind (bind f g) k = bind f (\<lambda>x. bind (g x) k)"
  by (auto simp: bind_def fun_eq_iff split: prod.splits sum.splits)

lemma bind_if: "bind (if b then f else g) k s = (if b then bind f k s else bind g k s)"
  by simp

lemma bind_getitem:
  "bind (getitem data k) g s =
     (case data k of None \<Rightarrow> (Inl (key_error k), s) | Some v \<Rightarrow> g v s)"
  by (simp add: bind_def getitem_def raise_def return_def split: option.splits)

lemma bind_set_smtp_server: "bind (set_smtp_server x) g s = g () (s\<lparr>smtp_server := Some x\<rparr>)"
  by (simp add: bind_def set_smtp_server_def)

lemma bind_set_configuration: "bind (set_configuration c) g s = g () (s\<lparr>configuration := Some c\<rparr>)"
  by (simp add: bind_def set_configuration_def)

lemma bind_perform:
  "bind (perform E c) g s =
     (case outcome E (trace s) c of
        None \<Rightarrow> g () (s\<lparr>trace := trace s @ [c]\<rparr>)
      | Some e \<Rightarrow> (Inl e, s\<lparr>trace := trace s @ [c]\<rparr>))"
  by (simp add: bind_def perform_def split: option.splits)

lemma bind_new_client:
  "bind (new_client E ssl) g s =
     (case outcome E (trace s) (NewClient (length (trace s)) ssl) of
        None \<Rightarrow> g () (s\<lparr>trace := trace s @ [NewClient (length (trace s)) ssl],
                       smtp_server := Some (ServerInstance (length (trace s)) ssl)\<rparr>)
      | Some e \<Rightarrow> (Inl e, s\<lparr>trace := trace s @ [NewClient (length (trace s)) ssl]\<rparr>))"
  by (simp add: bind_def new_client_def perform_def set_smtp_server_def split: option.splits)

lemma bind_server_call:
  "bind (server_call E f) g s =
     (case smtp_server s of
        None \<Rightarrow> (Inl (Exn AttributeError ''NoneType object has no attribute''), s)
      | Some (ServerClass ssl) \<Rightarrow> (Inl (Exn TypeError ''missing required argument''), s)
      | Some (ServerInstance h ssl) \<Rightarrow>
          (case outcome E (trace s) (Method h f) of
             None \<Rightarrow> g () (s\<lparr>trace := trace s @ [Method h f]\<rparr>)
           | Some e \<Rightarrow> (Inl e, s\<lparr>trace := trace s @ [Method h f]\<rparr>)))"
  by (simp add: bind_def server_call_def perform_def raise_def split: option.splits server.splits)

lemma server_call_apply:
  "server_call E f s =
     (case smtp_server s of
        None \<Rightarrow> (Inl (Exn AttributeError ''NoneType object has no attribute''), s)
      | Some (ServerClass ssl) \<Rightarrow> (Inl (Exn TypeError ''missing required argument''), s)
      | Some (ServerInstance h ssl) \<Rightarrow>
          (case outcome E (trace s) (Method h f) of
             None \<Rightarrow> (Inr (), s\<lparr>trace := trace s @ [Method h f]\<rparr>)
           | Some e \<Rightarrow> (Inl e, s\<lparr>trace := trace s @ [Method h f]\<rparr>)))"
  by (simp add: server_call_def perform_def raise_def split: option.splits server.splits)

lemma return_apply: "return x s = (Inr x, s)"
  by (simp add: return_def)

lemma bind_set_header:
  "bind (set_header E name v) g s =
     (case header_error E name v of None \<Rightarrow> g () s | Some e \<Rightarrow> (Inl e, s))"
  by (simp add: bind_def set_header_def return_def raise_def split: option.splits)

lemma bind_add_alternative:
  "bind (add_alternative v) g s =
     (case body_error v of None \<Rightarrow> g () s | Some e \<Rightarrow> (Inl e, s))"
  by (simp add: bind_def add_alternative_def return_def raise_def split: option.splits)

lemmas run_simps = bind_assoc bind_return bind_raise bind_lift bind_if bind_getitem
  bind_set_smtp_server bind_set_configuration bind_perform bind_new_client bind_server_call
  server_call_apply return_apply

lemmas split_all = option.splits sum.splits if_splits server.splits

lemma build_email_frame:
  "build_email E data s = (r, s') \<Longrightarrow> s' = s"
  by (auto simp: build_email_def run_simps bind_set_header bind_add_alternative
      split: option.splits)

lemma build_email_wf:
  "wf_request data \<Longrightarrow> message_accepted E data \<Longrightarrow> \<exists>em. build_email E data s = (Inr em, s)"
  by (auto simp: wf_request_def message_accepted_def build_email_def run_simps
      bind_set_header bind_add_alternative split: option.splits)

lemma header_error_uncaught: "header_error E name v = Some e \<Longrightarrow> \<not> caught e"
  by (auto simp: header_error_def split: pyval.splits if_splits)

lemma body_error_uncaught: "body_error v = Some e \<Longrightarrow> \<not> caught e"
  by (cases v) auto

text \<open>The exceptions of \<open>_build_email\<close> are of no listed class.\<close>

lemma build_email_uncaught:
  "build_email E data s = (Inl e, s') \<Longrightarrow> \<not> caught e"
  by (auto simp: build_email_def run_simps bind_set_header bind_add_alternative
      split: option.splits dest: header_error_uncaught body_error_uncaught)

subsection \<open>The connection sequence\<close>

lemma connect_frame:
  "connect_to_server E data s = (r, s') \<Longrightarrow>
     \<exists>evs. trace s' = trace s @ evs \<and> (\<forall>c\<in>set evs. is_session_call c)"
  by (auto simp: connect_to_server_def run_simps split: split_all)

lemma connect_caught:
  assumes "closed_env E" "wf_request data" "connect_to_server E data s = (Inl e, s')"
  shows "caught e"
  using assms
  by (auto simp: connect_to_server_def get_configuration_def wf_request_def closed_env_def run_simps split: split_all)

lemma connect_success:
  assumes "connect_to_server E data s = (Inr u, s')"
  shows "\<exists>ssl host port c.
           data ''ssl'' = Some ssl \<and> get_configuration data = Inr c \<and>
           smtp_server s' = Some (ServerInstance (length (trace s)) (truthy ssl)) \<and>
           configuration s' = Some c \<and>
           (\<exists>rest. trace s' = trace s @ NewClient (length (trace s)) (truthy ssl)
                        # Method (length (trace s)) (Connect host port) # rest
                    \<and> (\<forall>x\<in>set rest. \<not> is_connect x \<and> is_session_call x)
                    \<and> length (filter is_login rest) = (if truthy_opt (data ''username'') then 1 else 0))"
  using assms
  by (auto simp: connect_to_server_def get_configuration_def run_simps split: split_all)

subsection \<open>The try body\<close>

lemma read_not_session: "is_read c \<Longrightarrow> \<not> is_session_call c"
  by (cases c) auto

lemma bind_cases:
  assumes "bind f g s = (r, s')"
  obtains e where "f s = (Inl e, s')" and "r = Inl e"
        | x s1 where "f s = (Inr x, s1)" and "g x s1 = (r, s')"
  using assms by (auto simp: bind_def split: prod.splits sum.splits)

lemma try_body_eq:
  "try_body E data s =
     (case get_configuration data of
        Inl e \<Rightarrow> (Inl e, s)
      | Inr c \<Rightarrow>
          if needs_connect s c
          then (case connect_to_server E data s of
                  (Inl e, s1) \<Rightarrow> (Inl e, s1)
                | (Inr u, s1) \<Rightarrow> build_and_send E data s1)
          else build_and_send E data s)"
  by (simp add: try_body_def build_and_send_def bind_def lift_def return_def
      split: sum.splits prod.splits)

lemma attachments_step_frame:
  assumes "(if truthy_opt (data ''attachments'') then add_attachments E data em else return em) s = (r, s')"
  shows "smtp_server s' = smtp_server s \<and> configuration s' = configuration s \<and>
         (\<exists>evs. trace s' = trace s @ evs \<and> (\<forall>c\<in>set evs. is_read c))"
  using assms add_attachments_frame [of E data em s r s']
  by (auto simp: return_def split: if_splits)

lemma build_and_send_frame:
  assumes "build_and_send E data s = (r, s')"
  shows "smtp_server s' = smtp_server s \<and> configuration s' = configuration s \<and>
         (\<exists>evs. trace s' = trace s @ evs \<and> (\<forall>c\<in>set evs. \<not> is_session_call c))"
proof -
  from assms show ?thesis unfolding build_and_send_def
  proof (cases rule: bind_cases)
    case (1 e)
    then show ?thesis using build_email_frame [of E data s "Inl e" s'] by simp
  next
    case (2 em s1)
    then have s1: "s1 = s" using build_email_frame by blast
    from 2(2) show ?thesis
    proof (cases rule: bind_cases)
      case (1 e)
      from attachments_step_frame [OF 1(1)] s1 show ?thesis
        by (auto dest: read_not_session)
    next
      case (2 em' s2)
      from attachments_step_frame [OF 2(1)] s1 obtain evs where
        f: "smtp_server s2 = smtp_server s" "configuration s2 = configuration s"
           "trace s2 = trace s @ evs" "\<forall>c\<in>set evs. is_read c" by auto
      have nr: "\<forall>c\<in>set evs. \<not> is_session_call c"
        using f(4) by (auto dest: read_not_session)
      from 2(2) f nr show ?thesis
        by (auto simp: server_call_apply split: option.splits server.splits)
    qed
  qed
qed

lemma session_not_send: "is_session_call c \<Longrightarrow> \<not> is_send c"
  by (cases c rule: is_send.cases) auto

lemma read_not_send: "is_read c \<Longrightarrow> \<not> is_send c"
  by (cases c rule: is_send.cases) auto

lemma build_and_send_missing:
  assumes "closed_env E" "wf_request data" "message_accepted E data"
    and "data ''attachments'' = Some (VList ps)" "p \<in> set ps"
    and "\<forall>h. outcome E h (ReadBytes p) \<noteq> None"
  shows "\<exists>e s'. build_and_send E data s = (Inl e, s') \<and> caught e \<and>
           (\<exists>evs. trace s' = trace s @ evs \<and> evs \<noteq> [] \<and> (\<forall>c\<in>set evs. is_read c))"
proof -
  from build_email_wf [OF assms(2,3)] obtain em where em: "build_email E data s = (Inr em, s)"
    by blast
  from attach_all_missing [OF assms(5,6)] obtain e s' where
    a: "attach_all E ps em s = (Inl e, s')" by blast
  from assms(5) have "ps \<noteq> []" by auto
  with a em assms(4) have "build_and_send E data s = (Inl e, s')"
    by (simp add: build_and_send_def bind_def add_attachments_def getitem_def return_def)
  moreover from attach_all_caught [OF assms(1) a] have "caught e" .
  moreover from attach_all_raises [OF a]
  have "\<exists>evs. trace s' = trace s @ evs \<and> evs \<noteq> [] \<and> (\<forall>c\<in>set evs. is_read c)" .
  ultimately show ?thesis by blast
qed

lemma get_configuration_wf: "wf_request data \<Longrightarrow> \<exists>c. get_configuration data = Inr c"
  by (auto simp: wf_request_def get_configuration_def)

subsection \<open>The response\<close>

lemma multi_line_no_break: "\<forall>c\<in>set s. \<not> is_linebreak c \<Longrightarrow> \<not> multi_line s"
  by (induction s) auto

lemma header_error_env_of:
  "\<forall>c\<in>set v. \<not> is_linebreak c \<Longrightarrow> header_error (env_of f) name (VStr v) = None"
  by (simp add: header_error_def env_of_def multi_line_no_break)

lemma headers_accepted [simp]:
  "header_error (env_of f) name (VStr ''a@x.com'') = None"
  "header_error (env_of f) name (VStr ''me@localhost'') = None"
  "header_error (env_of f) name (VStr ''hello'') = None"
  by (rule header_error_env_of, simp add: is_linebreak_def)+

lemmas eval_simps = try_body_eq build_and_send_def connect_to_server_def build_email_def
  add_attachments_def get_configuration_def needs_connect_def run_simps init_def
  bind_set_header bind_add_alternative

lemma env_of_simps [simp]:
  "outcome (env_of f) h = f" "file_bytes (env_of f) p = []"
  "formatdate (env_of f) = ''Wed, 04 Nov 2026 12:00:00 +0000''"
  by (simp_all add: env_of_def)

lemma closed_login_rejected: "closed_env (env_of login_rejected)"
  by (auto simp: closed_env_def env_of_def caught_def elim!: login_rejected.elims)

lemma wf_req0: "wf_request req0"
  by (simp add: wf_request_def req0_def)

text \<open>
  C9: an exception raised in the \<open>try\<close> body that is an instance of none of the listed
  classes leaves \<open>_send_notification\<close>: the caller gets the exception, not a response.
\<close>

theorem unknown_exception_propagates:
  "fst (try_body E data s) = Inl e \<Longrightarrow> \<not> caught e \<Longrightarrow>
   send_notification E data s = (Inl e, snd (try_body E data s))"
  by (auto simp: send_notification_def split: prod.splits sum.splits)

lemma try_body_send_value_error:
  "fst (try_body (env_of send_value_error) req0 init) =
     Inl (Exn ValueError ''message has more than one Resent- header block'')"
  by (simp add: eval_simps req0_def)

theorem unknown_exception_propagates_witness:
  "fst (try_body (env_of send_value_error) req0 init) =
     Inl (Exn ValueError ''message has more than one Resent- header block'') \<and>
   \<not> caught (Exn ValueError ''message has more than one Resent- header block'') \<and>
   fst (send_notification (env_of send_value_error) req0 init) =
     Inl (Exn ValueError ''message has more than one Resent- header block'')"
  using unknown_exception_propagates [of "env_of send_value_error" req0 init
      "Exn ValueError ''message has more than one Resent- header block''"]
    try_body_send_value_error
  by (simp add: caught_def)

subsection \<open>The order of the connection sequence\<close>

lemma connect_calls_shape:
  assumes "connect_to_server E data s = (r, s')"
    and "data ''ssl'' = Some sv" and "data ''tls'' = Some tv"
  shows "\<exists>host port u p.
     (let h = length (trace s); N = NewClient h (truthy sv); C = Method h (Connect host port);
          L = Method h (Login u p); up = (truthy tv \<and> \<not> truthy sv)
      in (new_calls s s' = [N] \<and> r \<noteq> Inr ())
       \<or> (new_calls s s' = [N, C] \<and> (r = Inr () \<longrightarrow> \<not> up))
       \<or> (up \<and> new_calls s s' = [N, C, Method h Ehlo] \<and> r \<noteq> Inr ())
       \<or> (up \<and> new_calls s s' = [N, C, Method h Ehlo, Method h StartTLS])
       \<or> (up \<and> new_calls s s' = [N, C, Method h Ehlo, Method h StartTLS, L])
       \<or> (\<not> up \<and> new_calls s s' = [N, C, L]))"
  using assms
  by (auto simp: connect_to_server_def run_simps new_calls_def Let_def split: split_all)

text \<open>
  C5: in every run of \<open>_connect_to_server\<close>, to its end or to the call that raises:
  with \<open>ssl\<close> set the client created is the implicitly encrypted one and neither
  \<open>ehlo\<close> nor \<open>starttls\<close> is issued; with \<open>ssl\<close> unset and \<open>tls\<close> set, a run that returns has
  issued \<open>starttls\<close>, and a \<open>login\<close> is only ever made after a \<open>starttls\<close>; and in
  all cases a \<open>starttls\<close> comes after the \<open>connect\<close>, directly after the \<open>ehlo\<close>,
  and with no \<open>login\<close> before it.
\<close>

theorem connect_encryption_order:
  assumes "connect_to_server E data s = (r, s')"
    and "data ''ssl'' = Some sv" and "data ''tls'' = Some tv"
  shows "(truthy sv \<longrightarrow>
            hd (new_calls s s') = NewClient (length (trace s)) True \<and>
            (\<forall>c\<in>set (new_calls s s'). \<not> is_starttls c \<and> c \<noteq> Method (length (trace s)) Ehlo))
       \<and> (\<not> truthy sv \<longrightarrow> hd (new_calls s s') = NewClient (length (trace s)) False)
       \<and> (\<not> truthy sv \<and> truthy tv \<longrightarrow>
            (r = Inr () \<longrightarrow> (\<exists>c\<in>set (new_calls s s'). is_starttls c)) \<and>
            (\<forall>pre c post. new_calls s s' = pre @ c # post \<and> is_login c \<longrightarrow>
               (\<exists>x\<in>set pre. is_starttls x)))
       \<and> (\<forall>pre c post. new_calls s s' = pre @ c # post \<and> is_starttls c \<longrightarrow>
            (\<exists>x\<in>set pre. is_connect x) \<and> (\<forall>x\<in>set pre. \<not> is_login x) \<and>
            last pre = Method (length (trace s)) Ehlo)"
proof -
  from connect_calls_shape [OF assms] obtain host port u p where
    shape: "(let h = length (trace s); N = NewClient h (truthy sv); C = Method h (Connect host port);
          L = Method h (Login u p); up = (truthy tv \<and> \<not> truthy sv)
      in (new_calls s s' = [N] \<and> r \<noteq> Inr ())
       \<or> (new_calls s s' = [N, C] \<and> (r = Inr () \<longrightarrow> \<not> up))
       \<or> (up \<and> new_calls s s' = [N, C, Method h Ehlo] \<and> r \<noteq> Inr ())
       \<or> (up \<and> new_calls s s' = [N, C, Method h Ehlo, Method h StartTLS])
       \<or> (up \<and> new_calls s s' = [N, C, Method h Ehlo, Method h StartTLS, L])
       \<or> (\<not> up \<and> new_calls s s' = [N, C, L]))"
    by blast
  then show ?thesis
    by (auto simp: Let_def Cons_eq_append_conv append_eq_Cons_conv)
qed

lemma connect_req_tls:
  "connect_to_server (env_of all_ok) req_tls init =
     (Inr (), \<lparr>smtp_server = Some (ServerInstance 0 False),
       configuration = Some (VStr ''mail.x.com'', VInt 587, Some (VStr ''u'')),
       trace = [NewClient 0 False, Method 0 (Connect (VStr ''mail.x.com'') (VInt 587)),
                Method 0 Ehlo, Method 0 StartTLS,
                Method 0 (Login (VStr ''u'') (VStr ''p''))]\<rparr>)"
  by (simp add: eval_simps req_tls_def)

theorem connect_encryption_order_witness:
  "req_tls ''ssl'' = Some (VBool False) \<and> req_tls ''tls'' = Some (VBool True) \<and>
   new_calls init (snd (connect_to_server (env_of all_ok) req_tls init)) =
     [NewClient 0 False, Method 0 (Connect (VStr ''mail.x.com'') (VInt 587)),
      Method 0 Ehlo, Method 0 StartTLS, Method 0 (Login (VStr ''u'') (VStr ''p''))] \<and>
   is_login (Method 0 (Login (VStr ''u'') (VStr ''p''))) \<and>
   (\<exists>x\<in>set [NewClient 0 False, Method 0 (Connect (VStr ''mail.x.com'') (VInt 587)),
      Method 0 Ehlo, Method 0 StartTLS]. is_starttls x)"
  using connect_encryption_order [of "env_of all_ok" req_tls init "Inr ()"
      "snd (connect_to_server (env_of all_ok) req_tls init)" "VBool False" "VBool True"]
    connect_req_tls
  by (simp add: req_tls_def new_calls_def init_def)

subsection \<open>Session identity and reuse\<close>

lemma py_eq_refl: "py_eq a a"
  by (cases a) auto


lemma py_eq_trans: "py_eq a b \<Longrightarrow> py_eq b c \<Longrightarrow> py_eq a c"
  by (cases a; cases b; cases c) (auto split: if_splits)

lemma py_eq_opt_refl: "py_eq_opt a a"
  by (cases a) (auto simp: py_eq_refl)

lemma py_eq_opt_trans: "py_eq_opt a b \<Longrightarrow> py_eq_opt b c \<Longrightarrow> py_eq_opt a c"
  by (cases a; cases b; cases c) (auto intro: py_eq_trans)

lemma config_eq_refl: "config_eq c c"
  by (cases c) (auto simp: py_eq_refl py_eq_opt_refl)

lemma config_eq_trans: "config_eq a b \<Longrightarrow> config_eq b c \<Longrightarrow> config_eq a c"
  by (cases a; cases b; cases c) (auto intro: py_eq_trans py_eq_opt_trans)

lemma new_calls_trans:
  "trace s1 = trace s @ a \<Longrightarrow> trace s2 = trace s1 @ b \<Longrightarrow> new_calls s s2 = a @ b"
  by (simp add: new_calls_def)


lemma session_not_login: "\<not> is_session_call x \<Longrightarrow> \<not> is_login x"
  by (cases x rule: is_login.cases) auto


lemma try_body_reuse:
  assumes "get_configuration data = Inr c" and "\<not> needs_connect s c"
    and "try_body E data s = (r, s')"
  shows "smtp_server s' = smtp_server s \<and> configuration s' = configuration s \<and>
         (\<exists>evs. trace s' = trace s @ evs \<and> (\<forall>x\<in>set evs. \<not> is_session_call x))"
proof -
  from assms have "build_and_send E data s = (r, s')" by (simp add: try_body_eq)
  then show ?thesis by (rule build_and_send_frame)
qed








lemma send_failure:
  "send_notification E data s = (Inr resp, s') \<Longrightarrow> resp_errors resp \<noteq> None \<Longrightarrow>
     \<exists>e. try_body E data s = (Inl e, s') \<and> caught e \<and> resp_errors resp = Some [str e]"
  by (auto simp: send_notification_def create_response_def split: prod.splits sum.splits if_splits)

lemma send_reuse:
  assumes "get_configuration data = Inr c" and "\<not> needs_connect s c"
    and "send_notification E data s = (r, s')"
  shows "smtp_server s' = smtp_server s \<and> configuration s' = configuration s \<and>
         (\<forall>x\<in>set (new_calls s s'). \<not> is_session_call x)"
proof -
  obtain r0 where "try_body E data s = (r0, s')"
    using assms(3) by (auto simp: send_notification_def split: prod.splits sum.splits if_splits)
  from try_body_reuse [OF assms(1,2) this] show ?thesis by auto
qed


lemmas send_eval = send_notification_def create_response_def eval_simps




lemma cfg_req0: "get_configuration req0 = Inr (VStr ''localhost'', VInt 25, Some (VStr ''u''))"
  by (simp add: get_configuration_def req0_def)

lemma cfg_req_tls: "get_configuration req_tls = Inr (VStr ''mail.x.com'', VInt 587, Some (VStr ''u''))"
  by (simp add: get_configuration_def req_tls_def)


subsection \<open>Failed dispatches and the stored session\<close>

lemma attachments_step_raises:
  assumes "(if truthy_opt (data ''attachments'') then add_attachments E data em else return em) s = (Inl e, s')"
    and "caught e"
  shows "\<exists>evs. trace s' = trace s @ evs \<and> evs \<noteq> [] \<and> (\<forall>c\<in>set evs. is_read c)"
  using assms
  by (auto simp: return_def add_attachments_def bind_getitem raise_def
      split: if_splits option.splits pyval.splits dest: attach_all_raises)

text \<open>A listed exception raised after the session was obtained comes from a call: a
  read of an attachment or the transmit.\<close>

lemma build_and_send_raises:
  assumes run: "build_and_send E data s = (Inl e, s')" and e: "caught e"
  shows "smtp_server s' = smtp_server s \<and> configuration s' = configuration s \<and>
         (\<exists>evs. trace s' = trace s @ evs \<and> evs \<noteq> [] \<and>
                (\<forall>c\<in>set evs. \<not> is_session_call c) \<and>
                (\<forall>c\<in>set (butlast evs). is_read c) \<and>
                (is_read (last evs) \<or> is_send (last evs)))"
proof -
  from build_and_send_frame [OF run] have fr:
    "smtp_server s' = smtp_server s" "configuration s' = configuration s" by auto
  from run have "\<exists>evs. trace s' = trace s @ evs \<and> evs \<noteq> [] \<and>
                (\<forall>c\<in>set evs. \<not> is_session_call c) \<and>
                (\<forall>c\<in>set (butlast evs). is_read c) \<and>
                (is_read (last evs) \<or> is_send (last evs))"
    unfolding build_and_send_def
  proof (cases rule: bind_cases)
    case (1 e')
    with e build_email_uncaught [of E data s e s'] show ?thesis by simp
  next
    case (2 em s1)
    then have s1: "s1 = s" using build_email_frame by blast
    from 2(2) show ?thesis
    proof (cases rule: bind_cases)
      case (1 e')
      with attachments_step_raises [of data E em s1 e s'] e s1 obtain evs where
        v: "trace s' = trace s @ evs" "evs \<noteq> []" "\<forall>c\<in>set evs. is_read c" by auto
      then have "is_read (last evs)" "\<forall>c\<in>set (butlast evs). is_read c"
        by (auto dest: in_set_butlastD)
      with v show ?thesis by (auto dest: read_not_session)
    next
      case (2 em' s2)
      from attachments_step_frame [OF 2(1)] s1 obtain evs where
        f: "smtp_server s2 = smtp_server s" "trace s2 = trace s @ evs"
           "\<forall>c\<in>set evs. is_read c" by auto
      from 2(2) e obtain h b where
        "smtp_server s2 = Some (ServerInstance h b)"
        "trace s' = trace s2 @ [Method h (SendMessage em')]"
        by (auto simp: server_call_apply split: option.splits server.splits)
      with f have "trace s' = trace s @ (evs @ [Method h (SendMessage em')])" by simp
      moreover have "\<forall>c\<in>set (evs @ [Method h (SendMessage em')]). \<not> is_session_call c"
        using f(3) by (auto dest: read_not_session)
      ultimately show ?thesis using f(3) by (intro exI [of _ "evs @ [Method h (SendMessage em')]"]) simp
    qed
  qed
  with fr show ?thesis by simp
qed

lemma try_body_raises:
  assumes c: "get_configuration data = Inr c" and run: "try_body E data s = (Inl e, s')"
  shows "(needs_connect s c \<and> connect_to_server E data s = (Inl e, s'))
       \<or> (\<exists>s1. (if needs_connect s c then (\<exists>u. connect_to_server E data s = (Inr u, s1)) else s1 = s)
              \<and> build_and_send E data s1 = (Inl e, s'))"
proof (cases "needs_connect s c")
  case True
  obtain rc s1 where con: "connect_to_server E data s = (rc, s1)" by force
  with run c True show ?thesis by (cases rc) (auto simp: try_body_eq)
next
  case False
  with run c show ?thesis by (auto simp: try_body_eq)
qed

lemma connect_calls_nonempty:
  assumes "connect_to_server E data s = (r, s')" and "caught e" and "r = Inl e \<or> r = Inr u"
  shows "\<exists>evs. trace s' = trace s @ evs \<and> evs \<noteq> [] \<and> (\<forall>x\<in>set evs. is_session_call x)"
  using assms
  by (auto simp: connect_to_server_def run_simps split: split_all)

text \<open>
  Where a dispatch that ended in a listed exception stopped, judged by its last call:
  in the connection sequence, or after the session had been obtained.
\<close>

lemma send_failure_cases:
  assumes c: "get_configuration data = Inr c"
    and run: "send_notification E data s = (Inr resp, s')" and err: "resp_errors resp \<noteq> None"
  obtains (in_connect) e where "needs_connect s c" "connect_to_server E data s = (Inl e, s')"
      "caught e" "new_calls s s' \<noteq> []" "is_session_call (last (new_calls s s'))"
  | (after_connect) e s1 where
      "if needs_connect s c then (\<exists>u. connect_to_server E data s = (Inr u, s1)) else s1 = s"
      "build_and_send E data s1 = (Inl e, s')" "caught e"
      "smtp_server s' = smtp_server s1" "configuration s' = configuration s1"
      "new_calls s s' \<noteq> []" "\<not> is_session_call (last (new_calls s s'))"
      "is_read (last (new_calls s s')) \<or> is_send (last (new_calls s s'))"
      "\<forall>x\<in>set (new_calls s1 s'). \<not> is_session_call x"
      "trace s1 = trace s @ new_calls s s1" "trace s' = trace s1 @ new_calls s1 s'"
proof -
  from send_failure [OF run err] obtain e where
    t: "try_body E data s = (Inl e, s')" and e: "caught e" by blast
  from try_body_raises [OF c t] show thesis
  proof (elim disjE conjE exE)
    assume n: "needs_connect s c" and con: "connect_to_server E data s = (Inl e, s')"
    from connect_calls_nonempty [OF con e] obtain evs where
      "trace s' = trace s @ evs" "evs \<noteq> []" "\<forall>x\<in>set evs. is_session_call x" by blast
    then have "new_calls s s' \<noteq> []" "is_session_call (last (new_calls s s'))" by auto
    with n con e show thesis by (rule in_connect)
  next
    fix s1
    assume s1: "if needs_connect s c then (\<exists>u. connect_to_server E data s = (Inr u, s1)) else s1 = s"
      and bs: "build_and_send E data s1 = (Inl e, s')"
    from build_and_send_raises [OF bs e] obtain evs where
      f: "smtp_server s' = smtp_server s1" "configuration s' = configuration s1"
         "trace s' = trace s1 @ evs" "evs \<noteq> []" "\<forall>c\<in>set evs. \<not> is_session_call c"
         "is_read (last evs) \<or> is_send (last evs)" by blast
    have "\<exists>pre. trace s1 = trace s @ pre"
    proof (cases "needs_connect s c")
      case True
      with s1 connect_frame show ?thesis by fastforce
    next
      case False
      with s1 show ?thesis by simp
    qed
    then obtain pre where pre: "trace s1 = trace s @ pre" by blast
    have nc: "new_calls s s' = pre @ evs" using new_calls_trans [OF pre f(3)] .
    with f(4) have l: "last (new_calls s s') = last evs" and ne: "new_calls s s' \<noteq> []"
      by simp_all
    have ns: "\<not> is_session_call (last (new_calls s s'))" using f(4,5) l by simp
    have rs: "is_read (last (new_calls s s')) \<or> is_send (last (new_calls s s'))"
      using f(6) l by simp
    have tr1: "trace s1 = trace s @ new_calls s s1" using pre by simp
    have tr2: "trace s' = trace s1 @ new_calls s1 s'" using f(3) by simp
    have al: "\<forall>x\<in>set (new_calls s1 s'). \<not> is_session_call x" using f(3,5) by simp
    from s1 bs e f(1) f(2) ne ns rs al tr1 tr2 show thesis by (rule after_connect)
  qed
qed

lemma connected_after_connect:
  assumes "connect_to_server E data s = (Inr u, s1)" and "get_configuration data = Inr c"
  shows "configuration s1 = Some c \<and> (\<exists>b. smtp_server s1 = Some (ServerInstance (length (trace s)) b))"
  using connect_success [OF assms(1)] assms(2) by auto

text \<open>
  C8: when a dispatch ends in an error raised by the transmit call (the last call made
  is \<open>send_message\<close>, as with a refused sender), the stored client and the stored
  identity are those that were in place when the transmit was attempted: the ones the
  provider had before the call if the session was reused, the ones set by
  \<open>_connect_to_server\<close> if this call connected. The next dispatch with an equal
  identity makes no call of the connect-and-authenticate sequence.
\<close>

theorem transmit_failure_keeps_session:
  assumes c: "get_configuration data = Inr c"
    and run: "send_notification E data s = (Inr resp, s')" and err: "resp_errors resp \<noteq> None"
    and ne: "new_calls s s' \<noteq> []" and last: "is_send (last (new_calls s s'))"
  shows "smtp_server s' =
           smtp_server (if needs_connect s c then snd (connect_to_server E data s) else s)
       \<and> configuration s' =
           configuration (if needs_connect s c then snd (connect_to_server E data s) else s)
       \<and> (\<forall>c2. config_eq c c2 \<longrightarrow> \<not> needs_connect s' c2)
       \<and> (\<forall>E2 d2 c2 r2 s2.
             get_configuration d2 = Inr c2 \<and> config_eq c c2 \<and>
             send_notification E2 d2 s' = (r2, s2) \<longrightarrow>
             (\<forall>x\<in>set (new_calls s' s2). \<not> is_session_call x) \<and>
             smtp_server s2 = smtp_server s' \<and> configuration s2 = configuration s')"
  using c run err
proof (cases rule: send_failure_cases)
  case (in_connect e)
  with last show ?thesis by (auto dest: session_not_send)
next
  case (after_connect e s1)
  have s1: "s1 = (if needs_connect s c then snd (connect_to_server E data s) else s)"
    using after_connect(1) by (auto split: if_splits)
  have reuse: "\<not> needs_connect s' c2" if "config_eq c c2" for c2
  proof (cases "needs_connect s c")
    case True
    with after_connect(1) obtain u where "connect_to_server E data s = (Inr u, s1)" by auto
    from connected_after_connect [OF this c] after_connect(4,5) that show ?thesis
      by (auto simp: needs_connect_def)
  next
    case False
    with after_connect(1,4,5) that show ?thesis
      by (auto simp: needs_connect_def split: option.splits dest: config_eq_trans)
  qed
  have "(\<forall>x\<in>set (new_calls s' s2). \<not> is_session_call x) \<and>
             smtp_server s2 = smtp_server s' \<and> configuration s2 = configuration s'"
    if "get_configuration d2 = Inr c2 \<and> config_eq c c2 \<and> send_notification E2 d2 s' = (r2, s2)"
    for E2 d2 c2 r2 s2
    using send_reuse [of d2 c2 s' E2 r2 s2] reuse [of c2] that by simp
  with s1 after_connect(4,5) reuse show ?thesis by blast
qed

lemma send_refused_connected:
  "send_notification (env_of sender_refused) req0 st_sent =
     (Inr (create_response req0 (Some [''553 sender address rejected''])), st_sent2)"
  by (simp add: send_eval caught_def req0_def st_sent_def st_sent2_def email0_def)

theorem transmit_failure_keeps_session_witness:
  "get_configuration req0 = Inr (VStr ''localhost'', VInt 25, Some (VStr ''u'')) \<and>
   send_notification (env_of sender_refused) req0 st_sent =
     (Inr (create_response req0 (Some [''553 sender address rejected''])), st_sent2) \<and>
   new_calls st_sent st_sent2 = [Method 0 (SendMessage email0)] \<and>
   is_send (last (new_calls st_sent st_sent2)) \<and>
   \<not> needs_connect st_sent (VStr ''localhost'', VInt 25, Some (VStr ''u'')) \<and>
   smtp_server st_sent2 = smtp_server st_sent \<and>
   configuration st_sent2 = configuration st_sent \<and>
   \<not> needs_connect st_sent2 (VStr ''localhost'', VInt 25, Some (VStr ''u''))"
proof -
  have nc: "new_calls st_sent st_sent2 = [Method 0 (SendMessage email0)]"
    by (simp add: new_calls_def st_sent2_def st_sent_def)
  have n: "\<not> needs_connect st_sent (VStr ''localhost'', VInt 25, Some (VStr ''u''))"
    by (simp add: needs_connect_def st_sent_def)
  have "resp_errors (create_response req0 (Some [''553 sender address rejected''])) \<noteq> None"
    by (simp add: create_response_def)
  from transmit_failure_keeps_session [OF cfg_req0 send_refused_connected this] nc n
  have "smtp_server st_sent2 = smtp_server st_sent \<and>
        configuration st_sent2 = configuration st_sent \<and>
        (\<forall>c2. config_eq (VStr ''localhost'', VInt 25, Some (VStr ''u'')) c2 \<longrightarrow>
              \<not> needs_connect st_sent2 c2)"
    by simp
  moreover have "config_eq (VStr ''localhost'', VInt 25, Some (VStr ''u''))
                   (VStr ''localhost'', VInt 25, Some (VStr ''u''))" by simp
  ultimately show ?thesis using nc n cfg_req0 send_refused_connected by auto
qed

text \<open>
  C2, as the claim states it, fails. On a fresh provider let the server reject the
  login: the dispatch returns the error, and afterwards the client and the identity
  are stored, not cleared. The next dispatch of the same request makes one call only,
  the transmit on the stored client: no connect and no login.
\<close>

theorem auth_failure_not_disconnected_counterexample:
  "send_notification (env_of login_rejected) req0 init =
     (Inr (create_response req0 (Some [''535 authentication failed''])), st_auth_failed) \<and>
   smtp_server st_auth_failed = Some (ServerInstance 0 False) \<and>
   configuration st_auth_failed = Some (VStr ''localhost'', VInt 25, Some (VStr ''u'')) \<and>
   new_calls st_auth_failed (snd (send_notification (env_of login_rejected) req0 st_auth_failed)) =
     [Method 0 (SendMessage email0)]"
  by (simp add: send_eval caught_def req0_def st_auth_failed_def email0_def new_calls_def)

lemma connect_failure_state:
  assumes "connect_to_server E data s = (Inl e, s')" and "caught e"
    and "get_configuration data = Inr c"
  shows "(is_newclient (last (new_calls s s')) \<longrightarrow>
            configuration s' = configuration s \<and> (\<exists>b. smtp_server s' = Some (ServerClass b)))
       \<and> (is_connect (last (new_calls s s')) \<longrightarrow>
            configuration s' = configuration s \<and>
            (\<exists>b. smtp_server s' = Some (ServerInstance (length (trace s)) b)))
       \<and> (\<not> is_newclient (last (new_calls s s')) \<and> \<not> is_connect (last (new_calls s s')) \<longrightarrow>
            configuration s' = Some c \<and>
            (\<exists>b. smtp_server s' = Some (ServerInstance (length (trace s)) b)))"
  using assms
  by (auto simp: connect_to_server_def get_configuration_def run_simps new_calls_def
      split: split_all)

text \<open>
  C2 (amended): a dispatch that ends in a listed exception clears neither the stored
  client nor the stored identity: afterwards a client object is stored, and the stored
  identity is the one from before the call or the request's. If the exception came
  from the constructor or from \<open>connect\<close>, the identity is what it was before the call
  (and the stored object is the class, respectively the new client), so that, if none
  was stored, every next dispatch connects. If it came from \<open>ehlo\<close>, \<open>starttls\<close> or
  \<open>login\<close>, the stored identity is already the request's and the client is the new one;
  if it came from reading an attachment or from the transmit, an identity equal to the
  request's is stored. In all cases but the first two the next dispatch with an equal
  identity makes no call of the connect-and-authenticate sequence.
\<close>

theorem failure_keeps_client_and_identity:
  assumes c: "get_configuration data = Inr c"
    and run: "send_notification E data s = (Inr resp, s')" and err: "resp_errors resp \<noteq> None"
  shows "new_calls s s' \<noteq> [] \<and> smtp_server s' \<noteq> None
       \<and> (configuration s' = configuration s \<or> configuration s' = Some c)
       \<and> (is_newclient (last (new_calls s s')) \<longrightarrow>
            configuration s' = configuration s \<and> (\<exists>b. smtp_server s' = Some (ServerClass b)))
       \<and> (is_connect (last (new_calls s s')) \<longrightarrow>
            configuration s' = configuration s \<and>
            (\<exists>b. smtp_server s' = Some (ServerInstance (length (trace s)) b)))
       \<and> ((is_newclient (last (new_calls s s')) \<or> is_connect (last (new_calls s s'))) \<and>
            configuration s = None \<longrightarrow> (\<forall>c2. needs_connect s' c2))
       \<and> (is_session_call (last (new_calls s s')) \<and> \<not> is_newclient (last (new_calls s s')) \<and>
            \<not> is_connect (last (new_calls s s')) \<longrightarrow>
            configuration s' = Some c \<and>
            (\<exists>b. smtp_server s' = Some (ServerInstance (length (trace s)) b)))
       \<and> (\<not> is_session_call (last (new_calls s s')) \<longrightarrow>
            (\<exists>c0. configuration s' = Some c0 \<and> config_eq c0 c))
       \<and> (\<not> is_newclient (last (new_calls s s')) \<and> \<not> is_connect (last (new_calls s s')) \<longrightarrow>
            (\<forall>E2 d2 c2 r2 s2.
               get_configuration d2 = Inr c2 \<and> config_eq c c2 \<and>
               send_notification E2 d2 s' = (r2, s2) \<longrightarrow>
               (\<forall>x\<in>set (new_calls s' s2). \<not> is_session_call x)))"
  using c run err
proof (cases rule: send_failure_cases)
  case (in_connect e)
  note k = connect_failure_state [OF in_connect(2,3) c]
  have reuse: "\<forall>x\<in>set (new_calls s' s2). \<not> is_session_call x"
    if l: "\<not> is_newclient (last (new_calls s s')) \<and> \<not> is_connect (last (new_calls s s'))"
      and h: "get_configuration d2 = Inr c2 \<and> config_eq c c2 \<and> send_notification E2 d2 s' = (r2, s2)"
    for E2 d2 c2 r2 s2
  proof -
    from k l h have "\<not> needs_connect s' c2" by (auto simp: needs_connect_def)
    with send_reuse [of d2 c2 s' E2 r2 s2] h show ?thesis by simp
  qed
  have srv: "smtp_server s' \<noteq> None" using k by (cases "is_newclient (last (new_calls s s'))"; cases "is_connect (last (new_calls s s'))") auto
  have cfg: "configuration s' = configuration s \<or> configuration s' = Some c"
    using k by (cases "is_newclient (last (new_calls s s'))"; cases "is_connect (last (new_calls s s'))") auto
  have fresh: "\<forall>c2. needs_connect s' c2"
    if "(is_newclient (last (new_calls s s')) \<or> is_connect (last (new_calls s s'))) \<and>
            configuration s = None"
    using k that by (auto simp: needs_connect_def)
  from in_connect(4,5) k srv cfg fresh reuse show ?thesis by blast
next
  case (after_connect e s1)
  have nc: "\<not> is_connect (last (new_calls s s'))" "\<not> is_newclient (last (new_calls s s'))"
    using after_connect(7) by (cases "last (new_calls s s')" rule: is_session_call.cases; simp)+
  have st: "(\<exists>c0. configuration s' = Some c0 \<and> config_eq c0 c) \<and> smtp_server s' \<noteq> None \<and>
            (configuration s' = configuration s \<or> configuration s' = Some c)"
  proof (cases "needs_connect s c")
    case True
    with after_connect(1) obtain u where "connect_to_server E data s = (Inr u, s1)" by auto
    from connected_after_connect [OF this c] after_connect(4,5) show ?thesis
      by (auto simp: config_eq_refl)
  next
    case False
    with after_connect(1,4,5) show ?thesis
      by (auto simp: needs_connect_def split: option.splits)
  qed
  have d: "\<forall>x\<in>set (new_calls s' s2). \<not> is_session_call x"
    if h: "get_configuration d2 = Inr c2 \<and> config_eq c c2 \<and> send_notification E2 d2 s' = (r2, s2)"
    for E2 d2 c2 r2 s2
  proof -
    from st h have "\<not> needs_connect s' c2"
      by (auto simp: needs_connect_def dest: config_eq_trans)
    with send_reuse [of d2 c2 s' E2 r2 s2] h show ?thesis by simp
  qed
  from nc st d after_connect(6,7) show ?thesis by blast
qed

lemma send_starttls_fails:
  "send_notification (env_of starttls_fails) req_tls init =
     (Inr (create_response req_tls (Some [''[SSL] handshake failure''])), st_starttls_failed)"
  by (simp add: send_eval caught_def req_tls_def st_starttls_failed_def)

theorem failure_keeps_client_and_identity_witness:
  "get_configuration req_tls = Inr (VStr ''mail.x.com'', VInt 587, Some (VStr ''u'')) \<and>
   send_notification (env_of starttls_fails) req_tls init =
     (Inr (create_response req_tls (Some [''[SSL] handshake failure''])), st_starttls_failed) \<and>
   new_calls init st_starttls_failed =
     [NewClient 0 False, Method 0 (Connect (VStr ''mail.x.com'') (VInt 587)),
      Method 0 Ehlo, Method 0 StartTLS] \<and>
   is_session_call (last (new_calls init st_starttls_failed)) \<and>
   \<not> is_newclient (last (new_calls init st_starttls_failed)) \<and>
   \<not> is_connect (last (new_calls init st_starttls_failed)) \<and>
   smtp_server st_starttls_failed \<noteq> None \<and>
   configuration st_starttls_failed = Some (VStr ''mail.x.com'', VInt 587, Some (VStr ''u''))"
proof -
  have nc: "new_calls init st_starttls_failed =
     [NewClient 0 False, Method 0 (Connect (VStr ''mail.x.com'') (VInt 587)),
      Method 0 Ehlo, Method 0 StartTLS]"
    by (simp add: new_calls_def st_starttls_failed_def init_def)
  have e: "resp_errors (create_response req_tls (Some [''[SSL] handshake failure''])) \<noteq> None"
    by (simp add: create_response_def)
  from failure_keeps_client_and_identity [OF cfg_req_tls send_starttls_fails e] nc
  have "smtp_server st_starttls_failed \<noteq> None \<and>
        configuration st_starttls_failed = Some (VStr ''mail.x.com'', VInt 587, Some (VStr ''u''))"
    by simp
  with nc cfg_req_tls send_starttls_fails show ?thesis by simp
qed

lemma send_login_rejected:
  "send_notification (env_of login_rejected) req0 init =
     (Inr (create_response req0 (Some [''535 authentication failed''])), st_auth_failed)"
  by (simp add: send_eval caught_def req0_def st_auth_failed_def)

subsection \<open>The last call decides the response\<close>

lemma last_outcome_snoc [simp]: "trace s' = pre @ [x] \<Longrightarrow> last_outcome E s' = outcome E pre x"
  by (simp add: last_outcome_def)

lemma new_calls_nil: "trace s' = trace s \<Longrightarrow> new_calls s s' = []"
  by (simp add: new_calls_def)

lemma attach_all_raised:
  "attach_all E ps em s = (Inl e, s') \<Longrightarrow> new_calls s s' \<noteq> [] \<and> last_outcome E s' = Some e"
proof (induction ps arbitrary: em s)
  case Nil
  then show ?case by (simp add: return_def)
next
  case (Cons p ps)
  show ?case
  proof (cases "outcome E (trace s) (ReadBytes p)")
    case None
    let ?s1 = "s\<lparr>trace := trace s @ [ReadBytes p]\<rparr>"
    from Cons.prems None have run: "attach_all E ps (em\<lparr>parts := parts em @ [(p, file_bytes E p)]\<rparr>)
        ?s1 = (Inl e, s')"
      by (simp add: bind_def perform_def)
    from Cons.IH [OF run] have ih: "new_calls ?s1 s' \<noteq> []" "last_outcome E s' = Some e" by auto
    from attach_all_frame [OF run] obtain evs where "trace s' = trace ?s1 @ evs" by blast
    then have "trace s' = trace s @ (ReadBytes p # evs)" by simp
    then have "new_calls s s' = ReadBytes p # evs" by (rule new_calls_append)
    with ih show ?thesis by simp
  next
    case (Some e')
    with Cons.prems show ?thesis by (auto simp: bind_def perform_def last_outcome_def new_calls_def)
  qed
qed

lemma attach_all_returned:
  "attach_all E ps em s = (Inr em', s') \<Longrightarrow> new_calls s s' \<noteq> [] \<Longrightarrow> last_outcome E s' = None"
proof (induction ps arbitrary: em s)
  case Nil
  then show ?case by (simp add: return_def new_calls_def)
next
  case (Cons p ps)
  show ?case
  proof (cases "outcome E (trace s) (ReadBytes p)")
    case None
    let ?s1 = "s\<lparr>trace := trace s @ [ReadBytes p]\<rparr>"
    from Cons.prems None have run: "attach_all E ps (em\<lparr>parts := parts em @ [(p, file_bytes E p)]\<rparr>)
        ?s1 = (Inr em', s')"
      by (simp add: bind_def perform_def)
    show ?thesis
    proof (cases "new_calls ?s1 s' = []")
      case True
      from attach_all_frame [OF run] obtain evs where ev: "trace s' = trace ?s1 @ evs" by blast
      with True have "evs = []" by (simp add: new_calls_def)
      with ev have "trace s' = trace s @ [ReadBytes p]" by simp
      with None show ?thesis by simp
    next
      case False
      from Cons.IH [OF run False] show ?thesis .
    qed
  next
    case (Some e')
    with Cons.prems show ?thesis by (auto simp: bind_def perform_def)
  qed
qed

lemma last_outcome_cong: "trace s' = trace s1 \<Longrightarrow> last_outcome E s' = last_outcome E s1"
  by (simp add: last_outcome_def)

lemma new_calls_later:
  assumes "trace s1 = trace s @ a" and "trace s' = trace s1 @ b" and "new_calls s1 s' \<noteq> []"
  shows "new_calls s s' \<noteq> []"
  using assms by (simp add: new_calls_def)

lemma new_calls_same:
  assumes "trace s' = trace s1 @ b" and "new_calls s1 s' = []"
  shows "trace s' = trace s1"
  using assms by (simp add: new_calls_def)

lemma connect_raise_propagates:
  assumes "connect_to_server E data s = (r, s')" and "new_calls s s' \<noteq> []"
    and "last_outcome E s' = Some e"
  shows "r = Inl e"
  using assms
  by (auto simp: connect_to_server_def run_simps last_outcome_def new_calls_def butlast_append
      split: split_all)

lemma connect_raised:
  assumes "wf_request data" and "connect_to_server E data s = (Inl e, s')"
  shows "new_calls s s' \<noteq> [] \<and> last_outcome E s' = Some e"
  using assms
  by (auto simp: connect_to_server_def get_configuration_def wf_request_def run_simps
      last_outcome_def new_calls_def butlast_append split: split_all)

lemma connect_returned:
  assumes "connect_to_server E data s = (Inr u, s')"
  shows "new_calls s s' \<noteq> [] \<and> last_outcome E s' = None"
  using assms
  by (auto simp: connect_to_server_def run_simps last_outcome_def new_calls_def butlast_append
      split: split_all)

lemma attachments_step_raised:
  assumes "wf_request data"
    and "(if truthy_opt (data ''attachments'') then add_attachments E data em else return em) s = (Inl e, s')"
  shows "new_calls s s' \<noteq> [] \<and> last_outcome E s' = Some e"
  using assms
  by (auto simp: return_def add_attachments_def bind_getitem raise_def wf_request_def
      split: if_splits option.splits pyval.splits dest: attach_all_raised)

lemma attachments_step_returned:
  assumes "(if truthy_opt (data ''attachments'') then add_attachments E data em else return em) s = (Inr em', s')"
    and "new_calls s s' \<noteq> []"
  shows "last_outcome E s' = None"
  using assms
  by (auto simp: return_def add_attachments_def bind_getitem raise_def new_calls_def
      split: if_splits option.splits pyval.splits dest: attach_all_returned)

text \<open>
  What \<open>build_and_send\<close> does, step by step: the message is built without a call, the
  attachments are read, and the transmit is called on the stored client.
\<close>

lemma build_and_send_steps:
  assumes "build_and_send E data s = (r, s')"
  obtains (build) e where "build_email E data s = (Inl e, s)" "r = Inl e" "s' = s"
  | (attach) em e where "build_email E data s = (Inr em, s)" "r = Inl e"
      "(if truthy_opt (data ''attachments'') then add_attachments E data em else return em) s = (Inl e, s')"
  | (transmit) em em' s2 where "build_email E data s = (Inr em, s)"
      "(if truthy_opt (data ''attachments'') then add_attachments E data em else return em) s = (Inr em', s2)"
      "server_call E (SendMessage em') s2 = (r, s')"
proof -
  from assms show thesis unfolding build_and_send_def
  proof (cases rule: bind_cases)
    case (1 e)
    with build_email_frame [of E data s "Inl e" s'] show ?thesis by (auto intro: build)
  next
    case (2 em s1)
    with build_email_frame [of E data s "Inr em" s1] have s1: "s1 = s" by simp
    from 2(2) show ?thesis
    proof (cases rule: bind_cases)
      case (1 e)
      with 2(1) s1 show ?thesis by (auto intro: attach)
    next
      case (2 em' s2)
      with \<open>build_email E data s = (Inr em, s1)\<close> s1 show ?thesis by (auto intro: transmit)
    qed
  qed
qed

lemma server_call_cases:
  assumes "server_call E f s = (r, s')"
  obtains (none) "smtp_server s = None" "s' = s" "r = Inl (Exn AttributeError ''NoneType object has no attribute'')"
  | (class_object) b where "smtp_server s = Some (ServerClass b)" "s' = s"
      "r = Inl (Exn TypeError ''missing required argument'')"
  | (called) h b where "smtp_server s = Some (ServerInstance h b)"
      "trace s' = trace s @ [Method h f]" "smtp_server s' = smtp_server s"
      "configuration s' = configuration s"
      "r = (case outcome E (trace s) (Method h f) of None \<Rightarrow> Inr () | Some e \<Rightarrow> Inl e)"
  using assms
  by (auto simp: server_call_apply split: option.splits server.splits)

lemma build_and_send_raise_propagates:
  assumes run: "build_and_send E data s = (r, s')" and new: "new_calls s s' \<noteq> []"
    and out: "last_outcome E s' = Some e"
  shows "r = Inl e"
  using run
proof (cases rule: build_and_send_steps)
  case (build e')
  with new show ?thesis by (simp add: new_calls_def)
next
  case (attach em e')
  from attachments_step_frame [OF attach(3)] obtain evs where
    ev: "trace s' = trace s @ evs" by blast
  from attach(3) have "new_calls s s' \<noteq> [] \<longrightarrow> last_outcome E s' = Some e'"
    by (auto simp: return_def add_attachments_def bind_getitem raise_def new_calls_def
        split: if_splits option.splits pyval.splits dest: attach_all_raised)
  with new out attach(2) show ?thesis by simp
next
  case (transmit em em' s2)
  from attachments_step_frame [OF transmit(2)] obtain evs where
    ev: "trace s2 = trace s @ evs" by blast
  from transmit(3) show ?thesis
  proof (cases rule: server_call_cases)
    case none
    with new ev attachments_step_returned [OF transmit(2)] out show ?thesis by simp
  next
    case (class_object b)
    with new ev attachments_step_returned [OF transmit(2)] out show ?thesis by simp
  next
    case (called h b)
    with out show ?thesis by (simp split: option.splits)
  qed
qed

lemma build_and_send_raised:
  assumes wf: "wf_request data" and acc: "message_accepted E data"
    and srv: "smtp_server s = Some (ServerInstance h b)"
    and run: "build_and_send E data s = (Inl e, s')"
  shows "new_calls s s' \<noteq> [] \<and> last_outcome E s' = Some e"
  using run
proof (cases rule: build_and_send_steps)
  case (build e')
  with build_email_wf [OF wf acc, of s] show ?thesis by simp
next
  case (attach em e')
  with attachments_step_raised [OF wf attach(3)] show ?thesis by simp
next
  case (transmit em em' s2)
  from attachments_step_frame [OF transmit(2)] srv obtain evs where
    ev: "trace s2 = trace s @ evs" "smtp_server s2 = Some (ServerInstance h b)" by auto
  from transmit(3) show ?thesis
  proof (cases rule: server_call_cases)
    case none
    with ev show ?thesis by simp
  next
    case (class_object b)
    with ev show ?thesis by simp
  next
    case (called h' b')
    from called(2) ev(1) have "trace s' = trace s @ (evs @ [Method h' (SendMessage em')])" by simp
    then have "new_calls s s' = evs @ [Method h' (SendMessage em')]" by (rule new_calls_append)
    with called show ?thesis by (simp split: option.splits)
  qed
qed

lemma build_and_send_returned:
  assumes run: "build_and_send E data s = (Inr u, s')"
  shows "new_calls s s' \<noteq> [] \<and> last_outcome E s' = None \<and> is_send (last (new_calls s s'))"
  using run
proof (cases rule: build_and_send_steps)
  case (build e')
  then show ?thesis by simp
next
  case (attach em e')
  then show ?thesis by simp
next
  case (transmit em em' s2)
  from attachments_step_frame [OF transmit(2)] obtain evs where
    ev: "trace s2 = trace s @ evs" by blast
  from transmit(3) show ?thesis
  proof (cases rule: server_call_cases)
    case none
    then show ?thesis by simp
  next
    case (class_object b)
    then show ?thesis by simp
  next
    case (called h' b')
    from called(2) ev(1) have "trace s' = trace s @ (evs @ [Method h' (SendMessage em')])" by simp
    then have "new_calls s s' = evs @ [Method h' (SendMessage em')]" by (rule new_calls_append)
    with called show ?thesis by (simp split: option.splits)
  qed
qed

text \<open>
  The steps of the \<open>try\<close> body: the identity is read, the connection sequence runs when
  it is needed, and the message is built and sent.
\<close>

lemma try_body_steps:
  assumes "try_body E data s = (r, s')"
  obtains (no_identity) e where "get_configuration data = Inl e" "r = Inl e" "s' = s"
  | (sequence_raised) c e where "get_configuration data = Inr c" "needs_connect s c"
      "connect_to_server E data s = (Inl e, s')" "r = Inl e"
  | (sequence_done) c u s1 where "get_configuration data = Inr c" "needs_connect s c"
      "connect_to_server E data s = (Inr u, s1)" "build_and_send E data s1 = (r, s')"
  | (reused) c where "get_configuration data = Inr c" "\<not> needs_connect s c"
      "build_and_send E data s = (r, s')"
proof (cases "get_configuration data")
  case (Inl e)
  with assms show ?thesis by (auto simp: try_body_eq intro: no_identity)
next
  case (Inr c)
  show ?thesis
  proof (cases "needs_connect s c")
    case True
    obtain rc s1 where con: "connect_to_server E data s = (rc, s1)" by force
    with assms Inr True show ?thesis
      by (cases rc) (auto simp: try_body_eq intro: sequence_raised sequence_done)
  next
    case False
    with assms Inr show ?thesis by (auto simp: try_body_eq intro: reused)
  qed
qed

lemma try_body_raise_propagates:
  assumes run: "try_body E data s = (r, s')" and new: "new_calls s s' \<noteq> []"
    and out: "last_outcome E s' = Some e"
  shows "r = Inl e"
  using run
proof (cases rule: try_body_steps)
  case (no_identity e')
  with new show ?thesis by (simp add: new_calls_def)
next
  case (sequence_raised c e')
  from connect_raise_propagates [OF sequence_raised(3) new out] sequence_raised(4)
  show ?thesis by simp
next
  case (sequence_done c u s1)
  from build_and_send_frame [OF sequence_done(4)] obtain evs where
    ev: "trace s' = trace s1 @ evs" by blast
  show ?thesis
  proof (cases "new_calls s1 s' = []")
    case True
    from new_calls_same [OF ev True] have "last_outcome E s' = last_outcome E s1"
      by (rule last_outcome_cong)
    with connect_returned [OF sequence_done(3)] out show ?thesis by simp
  next
    case False
    from build_and_send_raise_propagates [OF sequence_done(4) False out] show ?thesis .
  qed
next
  case (reused c)
  from build_and_send_raise_propagates [OF reused(3) new out] show ?thesis .
qed

lemma try_body_raised:
  assumes wf: "wf_request data" and acc: "message_accepted E data"
    and st: "no_class_object s \<or> (\<exists>c. get_configuration data = Inr c \<and> needs_connect s c)"
    and run: "try_body E data s = (Inl e, s')"
  shows "new_calls s s' \<noteq> [] \<and> last_outcome E s' = Some e"
  using run
proof (cases rule: try_body_steps)
  case (no_identity e')
  with get_configuration_wf [OF wf] show ?thesis by simp
next
  case (sequence_raised c e')
  with connect_raised [OF wf, of E s e s'] show ?thesis by simp
next
  case (sequence_done c u s1)
  from connect_success [OF sequence_done(3)] obtain h b where
    srv: "smtp_server s1 = Some (ServerInstance h b)" by blast
  from connect_frame [OF sequence_done(3)] obtain a where a: "trace s1 = trace s @ a" by blast
  from build_and_send_frame [OF sequence_done(4)] obtain evs where
    ev: "trace s' = trace s1 @ evs" by blast
  from build_and_send_raised [OF wf acc srv sequence_done(4)]
  have "new_calls s1 s' \<noteq> []" "last_outcome E s' = Some e" by simp_all
  with new_calls_later [OF a ev] show ?thesis by simp
next
  case (reused c)
  with st have "no_class_object s" by auto
  with reused(2) obtain h b where "smtp_server s = Some (ServerInstance h b)"
    by (auto simp: needs_connect_def no_class_object_def split: option.splits server.splits)
  from build_and_send_raised [OF wf acc this reused(3)] show ?thesis .
qed

lemma try_body_returned:
  assumes run: "try_body E data s = (Inr u, s')"
  shows "new_calls s s' \<noteq> [] \<and> last_outcome E s' = None"
  using run
proof (cases rule: try_body_steps)
  case (no_identity e')
  then show ?thesis by simp
next
  case (sequence_raised c e')
  then show ?thesis by simp
next
  case (sequence_done c u' s1)
  from connect_frame [OF sequence_done(3)] obtain a where a: "trace s1 = trace s @ a" by blast
  from build_and_send_frame [OF sequence_done(4)] obtain evs where
    ev: "trace s' = trace s1 @ evs" by blast
  from build_and_send_returned [OF sequence_done(4)]
  have "new_calls s1 s' \<noteq> []" "last_outcome E s' = None" by simp_all
  with new_calls_later [OF a ev] show ?thesis by simp
next
  case (reused c)
  from build_and_send_returned [OF reused(3)] show ?thesis by simp
qed

lemma send_notification_result:
  "send_notification E data s =
     (case try_body E data s of
        (Inr u, s') \<Rightarrow> (Inr (create_response data None), s')
      | (Inl e, s') \<Rightarrow>
          if caught e then (Inr (create_response data (Some [str e])), s') else (Inl e, s'))"
  by (simp add: send_notification_def)

lemma subject_with_line_feed:
  "header_error (env_of f) ''Subject'' (VStr [CHR ''a'', CHR 0x0A, CHR ''b'']) =
     Some (Exn ValueError ''Header values may not contain linefeed or carriage return characters'')"
  by (simp add: header_error_def is_linebreak_def)

lemma wf_req_newline: "wf_request req_newline"
  by (simp add: wf_request_def req_newline_def req0_def)

text \<open>
  C1, as the claim states it, fails: not every request gets a response. A request that
  passes the schema, its subject holding a line feed, makes \<open>_build_email\<close> raise a
  \<open>ValueError\<close>, which leaves \<open>_send_notification\<close>. And after a failure of a listed
  class, the constructor of the client raising for another identity, the class object
  stays stored: the next dispatch with the earlier identity calls \<open>send_message\<close> on
  the class, and the \<open>TypeError\<close> leaves the function.
\<close>

theorem exception_escapes_counterexample:
  "wf_request req_newline \<and>
   fst (send_notification (env_of all_ok) req_newline init) =
     Inl (Exn ValueError ''Header values may not contain linefeed or carriage return characters'') \<and>
   send_notification (env_of constructor_fails) req_tls st_sent =
     (Inr (create_response req_tls (Some [''[Errno 24] Too many open files''])), st_class_object) \<and>
   send_notification (env_of all_ok) req0 st_class_object =
     (Inl (Exn TypeError ''missing required argument''), st_class_object)"
proof -
  have a: "fst (send_notification (env_of all_ok) req_newline init) =
     Inl (Exn ValueError ''Header values may not contain linefeed or carriage return characters'')"
    by (simp add: send_eval subject_with_line_feed req_newline_def req0_def)
  have b: "send_notification (env_of constructor_fails) req_tls st_sent =
     (Inr (create_response req_tls (Some [''[Errno 24] Too many open files''])), st_class_object)"
    by (simp add: send_eval caught_def req_tls_def st_sent_def st_class_object_def)
  have c: "send_notification (env_of all_ok) req0 st_class_object =
     (Inl (Exn TypeError ''missing required argument''), st_class_object)"
    by (simp add: send_eval req0_def st_sent_def st_class_object_def)
  from wf_req_newline a b c show ?thesis by simp
qed

text \<open>
  C1 (amended): every response that \<open>_send_notification\<close> returns has either no errors
  or a non-empty list of error strings, never both and never neither. Whenever the
  last call the dispatch made to a collaborator raised an exception of a listed class,
  the dispatch returns the response with the one-element error list \<open>[str(e)]\<close>: no such
  failure leaves the function. And a response is always returned, its errors absent if
  the last call succeeded and \<open>[str(e)]\<close> if it raised \<open>e\<close>, when the collaborators raise
  only exceptions of the listed classes, the request has the fields that defaults and
  validation guarantee, the \<open>email\<close> package takes its header values and body, and the
  stored client is no class object or the dispatch has to connect.
\<close>

theorem send_notification_response:
  "(\<forall>resp s'. send_notification E data s = (Inr resp, s') \<longrightarrow>
      (resp_errors resp = None) \<noteq> (\<exists>m ms. resp_errors resp = Some (m # ms)))
   \<and> (\<forall>r s' e. send_notification E data s = (r, s') \<and> new_calls s s' \<noteq> [] \<and>
         last_outcome E s' = Some e \<and> caught e \<longrightarrow>
         r = Inr (create_response data (Some [str e])))
   \<and> (closed_env E \<and> wf_request data \<and> message_accepted E data \<and>
       (no_class_object s \<or> (\<exists>c. get_configuration data = Inr c \<and> needs_connect s c)) \<longrightarrow>
         (\<exists>resp s'. send_notification E data s = (Inr resp, s') \<and> resp_data resp = data \<and>
            new_calls s s' \<noteq> [] \<and>
            resp_errors resp = (case last_outcome E s' of None \<Rightarrow> None | Some e \<Rightarrow> Some [str e])))"
proof (intro conjI allI impI)
  fix resp s'
  assume "send_notification E data s = (Inr resp, s')"
  then show "(resp_errors resp = None) \<noteq> (\<exists>m ms. resp_errors resp = Some (m # ms))"
    by (auto simp: send_notification_def create_response_def split: prod.splits sum.splits if_splits)
next
  fix r s' e
  assume h: "send_notification E data s = (r, s') \<and> new_calls s s' \<noteq> [] \<and>
         last_outcome E s' = Some e \<and> caught e"
  obtain r0 s0 where t: "try_body E data s = (r0, s0)" by force
  with h have "s0 = s'"
    by (auto simp: send_notification_def split: sum.splits if_splits)
  with t h try_body_raise_propagates [of E data s r0 s' e] have "r0 = Inl e" by simp
  with t h show "r = Inr (create_response data (Some [str e]))"
    by (auto simp: send_notification_def)
next
  assume h: "closed_env E \<and> wf_request data \<and> message_accepted E data \<and>
       (no_class_object s \<or> (\<exists>c. get_configuration data = Inr c \<and> needs_connect s c))"
  obtain r s' where run: "try_body E data s = (r, s')" by force
  show "\<exists>resp s'. send_notification E data s = (Inr resp, s') \<and> resp_data resp = data \<and>
            new_calls s s' \<noteq> [] \<and>
            resp_errors resp = (case last_outcome E s' of None \<Rightarrow> None | Some e \<Rightarrow> Some [str e])"
  proof (cases r)
    case (Inl e)
    with run h try_body_raised [of data E s e s'] have
      l: "new_calls s s' \<noteq> []" "last_outcome E s' = Some e" by simp_all
    from l(2) h have "caught e" by (auto simp: closed_env_def last_outcome_def)
    with run Inl l show ?thesis by (simp add: send_notification_def create_response_def)
  next
    case (Inr u)
    with run try_body_returned [of E data s u s'] show ?thesis
      by (simp add: send_notification_def create_response_def)
  qed
qed

lemma accepted_req0: "message_accepted (env_of f) req0"
  by (simp add: message_accepted_def req0_def)

theorem send_notification_response_witness:
  "closed_env (env_of login_rejected) \<and> wf_request req0 \<and>
   message_accepted (env_of login_rejected) req0 \<and> no_class_object init \<and>
   send_notification (env_of login_rejected) req0 init =
     (Inr (create_response req0 (Some [''535 authentication failed''])), st_auth_failed) \<and>
   new_calls init st_auth_failed \<noteq> [] \<and>
   last_outcome (env_of login_rejected) st_auth_failed =
     Some (Exn SMTPAuthenticationError ''535 authentication failed'') \<and>
   caught (Exn SMTPAuthenticationError ''535 authentication failed'') \<and>
   resp_errors (create_response req0 (Some [''535 authentication failed''])) =
     (case last_outcome (env_of login_rejected) st_auth_failed of
        None \<Rightarrow> None | Some e \<Rightarrow> Some [str e])"
proof -
  have ok: "no_class_object init" by (simp add: no_class_object_def init_def)
  have nc: "new_calls init st_auth_failed \<noteq> []"
    by (simp add: new_calls_def init_def st_auth_failed_def)
  have lo: "last_outcome (env_of login_rejected) st_auth_failed =
     Some (Exn SMTPAuthenticationError ''535 authentication failed'')"
    by (simp add: last_outcome_def st_auth_failed_def)
  have ca: "caught (Exn SMTPAuthenticationError ''535 authentication failed'')"
    by (simp add: caught_def)
  from send_notification_response [of "env_of login_rejected" req0 init]
    closed_login_rejected wf_req0 accepted_req0 ok send_login_rejected
  have "resp_errors (create_response req0 (Some [''535 authentication failed''])) =
     (case last_outcome (env_of login_rejected) st_auth_failed of
        None \<Rightarrow> None | Some e \<Rightarrow> Some [str e])"
    by auto
  with closed_login_rejected wf_req0 accepted_req0 ok send_login_rejected nc lo ca
  show ?thesis by simp
qed

subsection \<open>Identity and password\<close>

text \<open>
  C10: two requests that differ only in \<open>password\<close> have the same Session Identity, so
  in every state the test that decides between reuse and reconnect gives the same
  answer for both; and when the provider holds a session for that identity, a dispatch
  of the request with the other password keeps the stored client and identity and
  makes no call of the connect-and-authenticate sequence, hence no \<open>login\<close>.
\<close>

theorem password_not_in_identity:
  assumes "\<forall>k. k \<noteq> ''password'' \<longrightarrow> d1 k = d2 k"
  shows "get_configuration d1 = get_configuration d2
       \<and> (\<forall>c1 c2. get_configuration d1 = Inr c1 \<and> get_configuration d2 = Inr c2 \<longrightarrow>
             needs_connect s c1 = needs_connect s c2)
       \<and> (\<forall>c r s'. get_configuration d1 = Inr c \<and> \<not> needs_connect s c \<and>
             send_notification E d2 s = (r, s') \<longrightarrow>
             (\<forall>x\<in>set (new_calls s s'). \<not> is_session_call x \<and> \<not> is_login x) \<and>
             smtp_server s' = smtp_server s \<and> configuration s' = configuration s)"
proof -
  from assms have "d1 ''host'' = d2 ''host''" "d1 ''port'' = d2 ''port''"
    "d1 ''username'' = d2 ''username''" by simp_all
  then have eq: "get_configuration d1 = get_configuration d2"
    by (simp add: get_configuration_def split: option.splits)
  have "(\<forall>x\<in>set (new_calls s s'). \<not> is_session_call x \<and> \<not> is_login x) \<and>
             smtp_server s' = smtp_server s \<and> configuration s' = configuration s"
    if "get_configuration d1 = Inr c \<and> \<not> needs_connect s c \<and> send_notification E d2 s = (r, s')"
    for c r s'
    using send_reuse [of d2 c s E r s'] that eq by (auto dest: session_not_login)
  with eq show ?thesis by auto
qed

lemma send_other_password:
  "send_notification (env_of all_ok) req_other_password st_sent =
     (Inr (create_response req_other_password None), st_sent2)"
  by (simp add: send_eval req_other_password_def req0_def st_sent_def st_sent2_def email0_def)

theorem password_not_in_identity_witness:
  "req0 ''password'' = Some (VStr ''p'') \<and> req_other_password ''password'' = Some (VStr ''q'') \<and>
   get_configuration req0 = Inr (VStr ''localhost'', VInt 25, Some (VStr ''u'')) \<and>
   get_configuration req_other_password = Inr (VStr ''localhost'', VInt 25, Some (VStr ''u'')) \<and>
   \<not> needs_connect st_sent (VStr ''localhost'', VInt 25, Some (VStr ''u'')) \<and>
   send_notification (env_of all_ok) req_other_password st_sent =
     (Inr (create_response req_other_password None), st_sent2) \<and>
   new_calls st_sent st_sent2 = [Method 0 (SendMessage email0)] \<and>
   smtp_server st_sent2 = smtp_server st_sent \<and> configuration st_sent2 = configuration st_sent"
proof -
  have d: "\<forall>k. k \<noteq> ''password'' \<longrightarrow> req0 k = req_other_password k"
    by (simp add: req_other_password_def)
  have n: "\<not> needs_connect st_sent (VStr ''localhost'', VInt 25, Some (VStr ''u''))"
    by (simp add: needs_connect_def st_sent_def)
  have nc: "new_calls st_sent st_sent2 = [Method 0 (SendMessage email0)]"
    by (simp add: new_calls_def st_sent2_def st_sent_def)
  note th = password_not_in_identity [OF d, of st_sent "env_of all_ok"]
  from th cfg_req0 have c2: "get_configuration req_other_password =
      Inr (VStr ''localhost'', VInt 25, Some (VStr ''u''))" by simp
  from th [THEN conjunct2, THEN conjunct2] cfg_req0 n send_other_password
  have "smtp_server st_sent2 = smtp_server st_sent \<and> configuration st_sent2 = configuration st_sent"
    by blast
  with n nc c2 cfg_req0 send_other_password show ?thesis
    by (simp add: req0_def req_other_password_def)
qed

subsection \<open>Unreadable attachments\<close>

text \<open>
  C4, as the claim states it, fails. On a fresh provider, a request whose attachment
  does not exist gets its error response only after the client was created and
  \<open>connect\<close> and \<open>login\<close> were called: the file is read after the session is obtained.
\<close>

theorem missing_attachment_after_connect_counterexample:
  "req_attach ''attachments'' = Some (VList [''/tmp/missing.txt'']) \<and>
   send_notification (env_of file_missing) req_attach init =
     (Inr (create_response req_attach (Some [''[Errno 2] No such file or directory''])),
      st_missing) \<and>
   trace st_missing =
     [NewClient 0 False, Method 0 (Connect (VStr ''localhost'') (VInt 25)),
      Method 0 (Login (VStr ''u'') (VStr ''p'')), ReadBytes ''/tmp/missing.txt'']"
  by (simp add: send_eval caught_def req_attach_def req0_def st_missing_def)

lemma connect_first_call:
  assumes "connect_to_server E data s = (r, s')" and "data ''ssl'' = Some sv"
  shows "\<exists>b rest. trace s' = trace s @ NewClient (length (trace s)) b # rest \<and>
                  (\<forall>x\<in>set rest. is_session_call x)"
  using assms
  by (auto simp: connect_to_server_def run_simps split: split_all)

lemma closed_file_missing: "closed_env (env_of file_missing)"
  by (auto simp: closed_env_def env_of_def caught_def elim!: file_missing.elims)

lemma wf_req_attach: "wf_request req_attach"
  by (simp add: wf_request_def req_attach_def req0_def)

lemma prefix_before_split:
  assumes "xs @ ys = pre @ x # post" and "x \<notin> set xs"
  shows "set xs \<subseteq> set pre"
proof -
  from assms(1) obtain us where
    "(xs = pre @ us \<and> us @ ys = x # post) \<or> (xs @ us = pre \<and> ys = us @ x # post)"
    by (auto simp: append_eq_append_conv2)
  then show ?thesis
  proof
    assume h: "xs = pre @ us \<and> us @ ys = x # post"
    show ?thesis
    proof (cases us)
      case Nil
      with h show ?thesis by simp
    next
      case (Cons u us')
      with h have "u = x" by simp
      with h Cons assms(2) show ?thesis by simp
    qed
  next
    assume "xs @ us = pre \<and> ys = us @ x # post"
    then show ?thesis by auto
  qed
qed

text \<open>
  C4 (amended): let the attachments of a request list a file that cannot be read, let
  the request have the fields that defaults and validation guarantee and header values
  and a body that the \<open>email\<close> package takes, and let the collaborators raise only listed
  exceptions. Then the dispatch returns a response with a one-element error list and
  never calls \<open>send_message\<close>. When the stored session is reused the only calls are
  reads of attachments, so no transport call is made. When the session has to be
  established, the dispatch starts with the creation of the client, and every read of
  an attachment comes after the creation of the client, the \<open>connect\<close> and, with a
  username, the \<open>login\<close>; once the connection sequence has succeeded a read is made.
\<close>

theorem missing_attachment_reported:
  assumes E: "closed_env E" and wf: "wf_request data" and acc: "message_accepted E data"
    and att: "data ''attachments'' = Some (VList ps)" and p: "p \<in> set ps"
    and miss: "\<forall>h. outcome E h (ReadBytes p) \<noteq> None"
  shows "\<exists>resp s' m. send_notification E data s = (Inr resp, s') \<and> resp_errors resp = Some [m]
       \<and> (\<forall>x\<in>set (new_calls s s'). \<not> is_send x)
       \<and> (\<forall>c. get_configuration data = Inr c \<and> \<not> needs_connect s c \<longrightarrow>
             new_calls s s' \<noteq> [] \<and> (\<forall>x\<in>set (new_calls s s'). is_read x))
       \<and> (\<forall>c. get_configuration data = Inr c \<and> needs_connect s c \<longrightarrow>
             (\<exists>b rest. new_calls s s' = NewClient (length (trace s)) b # rest) \<and>
             (\<forall>u s1. connect_to_server E data s = (Inr u, s1) \<longrightarrow>
                (\<exists>x\<in>set (new_calls s s'). is_read x)) \<and>
             (\<forall>pre x post. new_calls s s' = pre @ x # post \<and> is_read x \<longrightarrow>
                (\<exists>y\<in>set pre. is_newclient y) \<and> (\<exists>y\<in>set pre. is_connect y) \<and>
                (truthy_opt (data ''username'') \<longrightarrow> (\<exists>y\<in>set pre. is_login y))))"
proof -
  let ?R = "\<lambda>s'. \<forall>x\<in>set (new_calls s s'). \<not> is_send x"
  let ?U = "\<lambda>s'. new_calls s s' \<noteq> [] \<and> (\<forall>x\<in>set (new_calls s s'). is_read x)"
  let ?C1 = "\<lambda>s'. \<exists>b rest. new_calls s s' = NewClient (length (trace s)) b # rest"
  let ?C2 = "\<lambda>s'. \<forall>u s1. connect_to_server E data s = (Inr u, s1) \<longrightarrow>
                (\<exists>x\<in>set (new_calls s s'). is_read x)"
  let ?C3 = "\<lambda>s'. \<forall>pre x post. new_calls s s' = pre @ x # post \<and> is_read x \<longrightarrow>
                (\<exists>y\<in>set pre. is_newclient y) \<and> (\<exists>y\<in>set pre. is_connect y) \<and>
                (truthy_opt (data ''username'') \<longrightarrow> (\<exists>y\<in>set pre. is_login y))"
  from get_configuration_wf [OF wf] obtain c where c: "get_configuration data = Inr c" by blast
  have main: "\<exists>e s'. try_body E data s = (Inl e, s') \<and> caught e \<and> ?R s'
       \<and> (\<not> needs_connect s c \<longrightarrow> ?U s')
       \<and> (needs_connect s c \<longrightarrow> ?C1 s' \<and> ?C2 s' \<and> ?C3 s')"
  proof (cases "needs_connect s c")
    case True
    obtain rc s1 where con: "connect_to_server E data s = (rc, s1)" by force
    show ?thesis
    proof (cases rc)
      case (Inl e)
      with con c True have t: "try_body E data s = (Inl e, s1)" by (simp add: try_body_eq)
      from connect_caught [OF E wf] con Inl have ce: "caught e" by simp
      from wf obtain sv where sv: "data ''ssl'' = Some sv" by (auto simp: wf_request_def)
      from connect_first_call [OF con sv] obtain b rest where
        tr: "trace s1 = trace s @ NewClient (length (trace s)) b # rest"
        and ses: "\<forall>x\<in>set rest. is_session_call x" by blast
      from tr have nc: "new_calls s s1 = NewClient (length (trace s)) b # rest" by simp
      have all: "\<forall>x\<in>set (new_calls s s1). is_session_call x" using nc ses by simp
      have r: "?R s1" using all by (blast dest: session_not_send)
      have c1: "?C1 s1" using nc by blast
      have c2: "?C2 s1" using con Inl by simp
      have c3: "?C3 s1"
      proof (intro allI impI)
        fix pre x post
        assume h: "new_calls s s1 = pre @ x # post \<and> is_read x"
        then have "x \<in> set (new_calls s s1)" by simp
        with all h have False by (blast dest: read_not_session)
        then show "(\<exists>y\<in>set pre. is_newclient y) \<and> (\<exists>y\<in>set pre. is_connect y) \<and>
                (truthy_opt (data ''username'') \<longrightarrow> (\<exists>y\<in>set pre. is_login y))" ..
      qed
      from True have u: "\<not> needs_connect s c \<longrightarrow> ?U s1" by simp
      from c1 c2 c3 have cc: "needs_connect s c \<longrightarrow> ?C1 s1 \<and> ?C2 s1 \<and> ?C3 s1" by (intro impI conjI)
      from t ce r u cc show ?thesis by (intro exI conjI)
    next
      case (Inr u)
      from connect_success [OF con [unfolded Inr]] c obtain ssl host port rest where
        k: "smtp_server s1 = Some (ServerInstance (length (trace s)) (truthy ssl))"
           "trace s1 = trace s @ NewClient (length (trace s)) (truthy ssl)
                        # Method (length (trace s)) (Connect host port) # rest"
           "\<forall>x\<in>set rest. \<not> is_connect x \<and> is_session_call x"
           "length (filter is_login rest) = (if truthy_opt (data ''username'') then 1 else 0)"
        by auto
      let ?seq = "NewClient (length (trace s)) (truthy ssl)
                        # Method (length (trace s)) (Connect host port) # rest"
      from build_and_send_missing [OF E wf acc att p miss, of s1] obtain e s' evs where
        bs: "build_and_send E data s1 = (Inl e, s')" and ce: "caught e" and
        ev: "trace s' = trace s1 @ evs" "evs \<noteq> []" "\<forall>x\<in>set evs. is_read x" by blast
      from bs con Inr c True have t: "try_body E data s = (Inl e, s')" by (simp add: try_body_eq)
      from k(2) ev(1) have nc: "new_calls s s' = ?seq @ evs" by simp
      have seq: "\<forall>x\<in>set ?seq. is_session_call x" using k(3) by simp
      have r: "?R s'"
      proof
        fix x assume "x \<in> set (new_calls s s')"
        with nc have "x \<in> set ?seq \<or> x \<in> set evs" by simp
        with seq ev(3) show "\<not> is_send x" by (blast dest: session_not_send read_not_send)
      qed
      have c1: "?C1 s'" using nc by simp
      obtain r0 where "r0 \<in> set evs" using ev(2) by (cases evs) auto
      with ev(3) nc have "\<exists>x\<in>set (new_calls s s'). is_read x" by auto
      then have c2: "?C2 s'" by simp
      have c3: "?C3 s'"
      proof (intro allI impI)
        fix pre x post
        assume h: "new_calls s s' = pre @ x # post \<and> is_read x"
        with seq have "x \<notin> set ?seq" by (blast dest: read_not_session)
        moreover from nc h have "?seq @ evs = pre @ x # post" by simp
        ultimately have sub: "set ?seq \<subseteq> set pre" by (rule prefix_before_split [rotated])
        have n: "\<exists>y\<in>set pre. is_newclient y"
        proof
          show "NewClient (length (trace s)) (truthy ssl) \<in> set pre" using sub by simp
          show "is_newclient (NewClient (length (trace s)) (truthy ssl))" by simp
        qed
        have co: "\<exists>y\<in>set pre. is_connect y"
        proof
          show "Method (length (trace s)) (Connect host port) \<in> set pre" using sub by simp
          show "is_connect (Method (length (trace s)) (Connect host port))" by simp
        qed
        have lo: "\<exists>y\<in>set pre. is_login y" if "truthy_opt (data ''username'')"
        proof -
          from that k(4) have "filter is_login rest \<noteq> []" by auto
          then obtain y where "y \<in> set rest" "is_login y" by (auto simp: filter_empty_conv)
          with sub show ?thesis by auto
        qed
        from n co lo show "(\<exists>y\<in>set pre. is_newclient y) \<and> (\<exists>y\<in>set pre. is_connect y) \<and>
                (truthy_opt (data ''username'') \<longrightarrow> (\<exists>y\<in>set pre. is_login y))"
          by (intro conjI impI)
      qed
      from True have u: "\<not> needs_connect s c \<longrightarrow> ?U s'" by simp
      from c1 c2 c3 have cc: "needs_connect s c \<longrightarrow> ?C1 s' \<and> ?C2 s' \<and> ?C3 s'" by (intro impI conjI)
      from t ce r u cc show ?thesis by (intro exI conjI)
    qed
  next
    case False
    from build_and_send_missing [OF E wf acc att p miss, of s] obtain e s' evs where
      bs: "build_and_send E data s = (Inl e, s')" and ce: "caught e" and
      ev: "trace s' = trace s @ evs" "evs \<noteq> []" "\<forall>x\<in>set evs. is_read x" by blast
    from bs c False have t: "try_body E data s = (Inl e, s')" by (simp add: try_body_eq)
    from ev have nc: "new_calls s s' = evs" by simp
    have r: "?R s'" using nc ev(3) by (auto dest: read_not_send)
    have u: "\<not> needs_connect s c \<longrightarrow> ?U s'" using nc ev(2,3) by simp
    from False have cc: "needs_connect s c \<longrightarrow> ?C1 s' \<and> ?C2 s' \<and> ?C3 s'" by simp
    from t ce r u cc show ?thesis by (intro exI conjI)
  qed
  then obtain e s' where t: "try_body E data s = (Inl e, s')" "caught e"
     and r: "?R s'" and u: "\<not> needs_connect s c \<longrightarrow> ?U s'"
     and cc: "needs_connect s c \<longrightarrow> ?C1 s' \<and> ?C2 s' \<and> ?C3 s'"
    by blast
  from t have send: "send_notification E data s = (Inr (create_response data (Some [str e])), s')"
    by (simp add: send_notification_def)
  have er: "resp_errors (create_response data (Some [str e])) = Some [str e]"
    by (simp add: create_response_def)
  have u': "\<forall>c'. get_configuration data = Inr c' \<and> \<not> needs_connect s c' \<longrightarrow> ?U s'"
    using u c by simp
  have cc': "\<forall>c'. get_configuration data = Inr c' \<and> needs_connect s c' \<longrightarrow>
      ?C1 s' \<and> ?C2 s' \<and> ?C3 s'"
    using cc c by simp
  from send er r u' cc' show ?thesis by (intro exI conjI)
qed

lemma accepted_req_attach: "message_accepted (env_of f) req_attach"
  by (simp add: message_accepted_def req_attach_def req0_def)

theorem missing_attachment_reported_witness:
  "closed_env (env_of file_missing) \<and> wf_request req_attach \<and>
   message_accepted (env_of file_missing) req_attach \<and>
   req_attach ''attachments'' = Some (VList [''/tmp/missing.txt'']) \<and>
   get_configuration req_attach = Inr (VStr ''localhost'', VInt 25, Some (VStr ''u'')) \<and>
   needs_connect init (VStr ''localhost'', VInt 25, Some (VStr ''u'')) \<and>
   (\<exists>resp s' m. send_notification (env_of file_missing) req_attach init = (Inr resp, s') \<and>
       resp_errors resp = Some [m] \<and>
       (\<forall>x\<in>set (new_calls init s'). \<not> is_send x) \<and>
       (\<exists>b rest. new_calls init s' = NewClient (length (trace init)) b # rest))"
proof -
  have att: "req_attach ''attachments'' = Some (VList [''/tmp/missing.txt''])"
    by (simp add: req_attach_def)
  have p: "''/tmp/missing.txt'' \<in> set [''/tmp/missing.txt'']" by simp
  have miss: "\<forall>h. outcome (env_of file_missing) h (ReadBytes ''/tmp/missing.txt'') \<noteq> None"
    by simp
  have c: "get_configuration req_attach = Inr (VStr ''localhost'', VInt 25, Some (VStr ''u''))"
    by (simp add: get_configuration_def req_attach_def req0_def)
  have n: "needs_connect init (VStr ''localhost'', VInt 25, Some (VStr ''u''))"
    by (simp add: needs_connect_def init_def)
  from missing_attachment_reported
    [OF closed_file_missing wf_req_attach accepted_req_attach att p miss, of init]
  obtain resp s' m where
    r: "send_notification (env_of file_missing) req_attach init = (Inr resp, s')"
       "resp_errors resp = Some [m]" "\<forall>x\<in>set (new_calls init s'). \<not> is_send x"
    and cc: "\<forall>c. get_configuration req_attach = Inr c \<and> needs_connect init c \<longrightarrow>
             (\<exists>b rest. new_calls init s' = NewClient (length (trace init)) b # rest) \<and>
             (\<forall>u s1. connect_to_server (env_of file_missing) req_attach init = (Inr u, s1) \<longrightarrow>
                (\<exists>x\<in>set (new_calls init s'). is_read x)) \<and>
             (\<forall>pre x post. new_calls init s' = pre @ x # post \<and> is_read x \<longrightarrow>
                (\<exists>y\<in>set pre. is_newclient y) \<and> (\<exists>y\<in>set pre. is_connect y) \<and>
                (truthy_opt (req_attach ''username'') \<longrightarrow> (\<exists>y\<in>set pre. is_login y)))"
    by blast
  from cc c n have "\<exists>b rest. new_calls init s' = NewClient (length (trace init)) b # rest"
    by blast
  with r have "\<exists>resp s' m. send_notification (env_of file_missing) req_attach init = (Inr resp, s') \<and>
       resp_errors resp = Some [m] \<and>
       (\<forall>x\<in>set (new_calls init s'). \<not> is_send x) \<and>
       (\<exists>b rest. new_calls init s' = NewClient (length (trace init)) b # rest)"
    by blast
  with closed_file_missing wf_req_attach accepted_req_attach att c n show ?thesis by blast
qed

end
